theory Spec2Isabelle
  imports Main "HOL-Library.Sublist"
begin

section \<open>Python strings\<close>

text \<open>
  A Python \<^verbatim>\<open>str\<close> is a sequence of code points. It is modelled as a \<^typ>\<open>string\<close>
  whose characters are read as the code points U+0000 .. U+00FF; the three string
  operations the program uses (\<^verbatim>\<open>str.isdigit\<close>, \<^verbatim>\<open>str.lower\<close>, \<^verbatim>\<open>in\<close>) are written out
  for that range.
\<close>

text \<open>\<^verbatim>\<open>str.isdigit\<close> on one character: the ASCII digits and the superscripts
  U+00B2, U+00B3, U+00B9.\<close>

definition str_isdigit :: "char \<Rightarrow> bool" where
  "str_isdigit c = (c \<in> set (''0123456789'' @ [CHR 0xB2, CHR 0xB3, CHR 0xB9]))"

definition upper_chars :: string where
  "upper_chars = ''ABCDEFGHIJKLMNOPQRSTUVWXYZ'' @
     [CHR 0xC0, CHR 0xC1, CHR 0xC2, CHR 0xC3, CHR 0xC4, CHR 0xC5, CHR 0xC6, CHR 0xC7,
      CHR 0xC8, CHR 0xC9, CHR 0xCA, CHR 0xCB, CHR 0xCC, CHR 0xCD, CHR 0xCE, CHR 0xCF,
      CHR 0xD0, CHR 0xD1, CHR 0xD2, CHR 0xD3, CHR 0xD4, CHR 0xD5, CHR 0xD6,
      CHR 0xD8, CHR 0xD9, CHR 0xDA, CHR 0xDB, CHR 0xDC, CHR 0xDD, CHR 0xDE]"

definition lower_chars :: string where
  "lower_chars = ''abcdefghijklmnopqrstuvwxyz'' @
     [CHR 0xE0, CHR 0xE1, CHR 0xE2, CHR 0xE3, CHR 0xE4, CHR 0xE5, CHR 0xE6, CHR 0xE7,
      CHR 0xE8, CHR 0xE9, CHR 0xEA, CHR 0xEB, CHR 0xEC, CHR 0xED, CHR 0xEE, CHR 0xEF,
      CHR 0xF0, CHR 0xF1, CHR 0xF2, CHR 0xF3, CHR 0xF4, CHR 0xF5, CHR 0xF6,
      CHR 0xF8, CHR 0xF9, CHR 0xFA, CHR 0xFB, CHR 0xFC, CHR 0xFD, CHR 0xFE]"

definition lower_char :: "char \<Rightarrow> char" where
  "lower_char c = (case map_of (zip upper_chars lower_chars) c of None \<Rightarrow> c | Some d \<Rightarrow> d)"

text \<open>\<^verbatim>\<open>s.lower()\<close>\<close>

definition lower :: "string \<Rightarrow> string" where
  "lower s = map lower_char s"

text \<open>\<^verbatim>\<open>sub in s\<close>: \<open>sub\<close> occurs in \<open>s\<close> as a contiguous run.\<close>

fun contains :: "string \<Rightarrow> string \<Rightarrow> bool" where
  "contains sub [] = (sub = [])"
| "contains sub (c # cs) = (prefix sub (c # cs) \<or> contains sub cs)"

text \<open>\<^verbatim>\<open>s.startswith(p)\<close>\<close>

definition startswith :: "string \<Rightarrow> string \<Rightarrow> bool" where
  "startswith s p = (take (length p) s = p)"


section \<open>Call sessions\<close>

text \<open>
  \<^verbatim>\<open>datetime.now()\<close> is a point on the local clock with microsecond resolution: an
  integer number of microseconds. The difference of two of them is a \<^verbatim>\<open>timedelta\<close>, kept
  by Python as days, seconds (0 .. 86399) and microseconds (0 .. 999999); its attribute
  \<^verbatim>\<open>.seconds\<close> is the middle component.
\<close>

type_synonym datetime = int

definition timedelta_seconds :: "datetime \<Rightarrow> datetime \<Rightarrow> int" where
  "timedelta_seconds end_time answer_time = ((end_time - answer_time) div 1000000) mod 86400"

text \<open>
  One entry of \<^verbatim>\<open>active_channels\<close>. The keys \<^verbatim>\<open>exten\<close> and \<^verbatim>\<open>context\<close> exist only in
  \<^verbatim>\<open>integration_debug.py\<close>; \<^verbatim>\<open>answer_time\<close> is absent until the first bridge.
\<close>

record call =
  channel :: string
  callerid :: string
  exten :: "string option"
  context' :: "string option"
  start_time :: datetime
  direction :: string
  connected :: bool
  answer_time :: "datetime option"

text \<open>The \<^verbatim>\<open>call_data\<close> dictionary handed to \<^verbatim>\<open>process_call\<close>; \<^verbatim>\<open>internal_call\<close> is a key
  of \<^verbatim>\<open>integration_debug.py\<close> only, and \<open>timestamp\<close> holds the start time whose ISO text
  the source stores.\<close>

record call_data =
  phone :: string
  cd_direction :: string
  duration :: int
  status :: string
  uniqueid :: string
  timestamp :: datetime
  internal_call :: "bool option"

text \<open>
  The handler's state: the table \<^verbatim>\<open>active_channels\<close> and the \<^verbatim>\<open>process_call\<close> tasks
  created so far with \<^verbatim>\<open>asyncio.create_task\<close>, oldest first.
\<close>

record ami_handler =
  active_channels :: "string \<rightharpoonup> call"
  tasks :: "call_data list"

text \<open>The events the handler registers for, with the fields it reads from each.\<close>

datatype ami_event =
  Newchannel string string string "string option" "string option"
  | BridgeEnter string
  | Hangup string "string option"

fun event_uniqueid :: "ami_event \<Rightarrow> string" where
  "event_uniqueid (Newchannel u ch cid ex ctx) = u"
| "event_uniqueid (BridgeEnter u) = u"
| "event_uniqueid (Hangup u cause) = u"

fun is_newchannel :: "ami_event \<Rightarrow> bool" where
  "is_newchannel (Newchannel u ch cid ex ctx) = True"
| "is_newchannel _ = False"

text \<open>The \<^verbatim>\<open>debug\<close> section of the configuration, read by \<^verbatim>\<open>integration_debug.py\<close>.
  \<open>process_internal_calls\<close> is the truth value of the setting.\<close>

record debug_config =
  process_internal_calls :: bool
  test_phone :: "string option"

subsection \<open>Direction\<close>

text \<open>\<^verbatim>\<open>detect_direction\<close> of \<^verbatim>\<open>integration.py\<close>: the channel name only.\<close>

definition detect_direction :: "string \<Rightarrow> string" where
  "detect_direction chan =
     (let channel_lower = lower chan in
      if contains ''from-trunk'' channel_lower \<or> contains ''from-pstn'' channel_lower
      then ''inbound''
      else if contains ''from-internal'' channel_lower then ''outbound''
      else ''unknown'')"

text \<open>\<^verbatim>\<open>detect_direction\<close> of \<^verbatim>\<open>integration_debug.py\<close>: channel name and context.\<close>

definition detect_direction_debug :: "string \<Rightarrow> string \<Rightarrow> string" where
  "detect_direction_debug chan ctx =
     (let channel_lower = lower chan; context_lower = lower ctx in
      if contains ''from-trunk'' channel_lower \<or> contains ''from-pstn'' channel_lower
      then ''inbound''
      else if contains ''from-trunk'' context_lower \<or> contains ''from-pstn'' context_lower
      then ''inbound''
      else if contains ''from-internal'' channel_lower \<or> contains ''from-internal'' context_lower
      then ''outbound''
      else if contains ''ext-local'' context_lower then ''internal''
      else ''unknown'')"

subsection \<open>Phone number\<close>

text \<open>\<^verbatim>\<open>extract_phone\<close>, the same in both files.\<close>

definition extract_phone :: "call \<Rightarrow> string option" where
  "extract_phone c =
     (let phone = filter str_isdigit (callerid c);
          phone = (if startswith phone ''8'' \<and> length phone = 11
                   then ''7'' @ drop 1 phone else phone)
      in if length phone \<ge> 10 then Some phone else None)"

text \<open>
  The normalizer as the specification words it, a digit being one of the ten decimal
  digits 0 to 9: strip the non-digits; a string of eleven digits that starts with 8 has
  its leading digit replaced by 7; the result is accepted from ten digits on.
\<close>

definition decimal_digit :: "char \<Rightarrow> bool" where
  "decimal_digit c = (c \<in> set ''0123456789'')"

definition PhoneNormalizer :: "string \<Rightarrow> string option" where
  "PhoneNormalizer raw =
     (let digits = filter decimal_digit raw;
          result = (if length digits = 11 \<and> hd digits = CHR ''8''
                    then digits[0 := CHR ''7''] else digits)
      in if 10 \<le> length result then Some result else None)"

subsection \<open>Event handlers\<close>

text \<open>Each handler takes the value \<^verbatim>\<open>datetime.now()\<close> has while it runs.\<close>

definition on_new_channel :: "datetime \<Rightarrow> ami_event \<Rightarrow> ami_handler \<Rightarrow> ami_handler" where
  "on_new_channel now ev h =
     (case ev of
        Newchannel u chan cid ex ctx \<Rightarrow>
          h\<lparr>active_channels := (active_channels h)(u \<mapsto>
               \<lparr>channel = chan, callerid = cid, exten = None, context' = None,
                start_time = now, direction = detect_direction chan,
                connected = False, answer_time = None\<rparr>)\<rparr>
      | _ \<Rightarrow> h)"

text \<open>In \<^verbatim>\<open>integration_debug.py\<close> the event's \<^verbatim>\<open>Exten\<close> and \<^verbatim>\<open>Context\<close> default to the
  empty string.\<close>

definition on_new_channel_debug :: "datetime \<Rightarrow> ami_event \<Rightarrow> ami_handler \<Rightarrow> ami_handler" where
  "on_new_channel_debug now ev h =
     (case ev of
        Newchannel u chan cid ex ctx \<Rightarrow>
          (let exten_val = (case ex of None \<Rightarrow> '''' | Some e \<Rightarrow> e);
               context_val = (case ctx of None \<Rightarrow> '''' | Some c \<Rightarrow> c)
           in h\<lparr>active_channels := (active_channels h)(u \<mapsto>
               \<lparr>channel = chan, callerid = cid, exten = Some exten_val, context' = Some context_val,
                start_time = now, direction = detect_direction_debug chan context_val,
                connected = False, answer_time = None\<rparr>)\<rparr>)
      | _ \<Rightarrow> h)"

definition on_bridge_enter :: "datetime \<Rightarrow> ami_event \<Rightarrow> ami_handler \<Rightarrow> ami_handler" where
  "on_bridge_enter now ev h =
     (case ev of
        BridgeEnter u \<Rightarrow>
          (case active_channels h u of
             None \<Rightarrow> h
           | Some c \<Rightarrow>
               h\<lparr>active_channels := (active_channels h)(u \<mapsto>
                    c\<lparr>connected := True, answer_time := Some now\<rparr>)\<rparr>)
      | _ \<Rightarrow> h)"

text \<open>\<^verbatim>\<open>on_hangup\<close> of \<^verbatim>\<open>integration.py\<close>.\<close>

definition on_hangup :: "datetime \<Rightarrow> ami_event \<Rightarrow> ami_handler \<Rightarrow> ami_handler" where
  "on_hangup now ev h =
     (case ev of
        Hangup u cause \<Rightarrow>
          (let cause_txt = (case cause of None \<Rightarrow> ''UNKNOWN'' | Some t \<Rightarrow> t) in
           case active_channels h u of
             None \<Rightarrow> h
           | Some c \<Rightarrow>
               (let end_time = now;
                    (duration', status') =
                      (case answer_time c of
                         Some a \<Rightarrow> (timedelta_seconds end_time a, ''ANSWERED'')
                       | None \<Rightarrow> (0, cause_txt))
                in case extract_phone c of
                     None \<Rightarrow> h\<lparr>active_channels := (active_channels h)(u := None)\<rparr>
                   | Some phone' \<Rightarrow>
                       h\<lparr>tasks := tasks h @
                            [\<lparr>phone = phone', cd_direction = direction c,
                              duration = duration', status = status', uniqueid = u,
                              timestamp = start_time c, internal_call = None\<rparr>],
                         active_channels := (active_channels h)(u := None)\<rparr>))
      | _ \<Rightarrow> h)"

text \<open>
  \<^verbatim>\<open>on_hangup\<close> of \<^verbatim>\<open>integration_debug.py\<close>: a call without a usable number takes the
  configured test number when \<^verbatim>\<open>process_internal_calls\<close> is set; an empty test number
  counts as none.
\<close>

definition on_hangup_debug ::
  "debug_config \<Rightarrow> datetime \<Rightarrow> ami_event \<Rightarrow> ami_handler \<Rightarrow> ami_handler" where
  "on_hangup_debug cfg now ev h =
     (case ev of
        Hangup u cause \<Rightarrow>
          (let cause_txt = (case cause of None \<Rightarrow> ''UNKNOWN'' | Some t \<Rightarrow> t) in
           case active_channels h u of
             None \<Rightarrow> h
           | Some c \<Rightarrow>
               (let end_time = now;
                    (duration', status') =
                      (case answer_time c of
                         Some a \<Rightarrow> (timedelta_seconds end_time a, ''ANSWERED'')
                       | None \<Rightarrow> (0, cause_txt));
                    phone0 = extract_phone c;
                    phone1 =
                      (if phone0 = None \<and> process_internal_calls cfg
                       then (case test_phone cfg of
                               None \<Rightarrow> phone0
                             | Some t \<Rightarrow> if t \<noteq> '''' then Some t else phone0)
                       else phone0)
                in case phone1 of
                     None \<Rightarrow> h\<lparr>active_channels := (active_channels h)(u := None)\<rparr>
                   | Some phone' \<Rightarrow>
                       h\<lparr>tasks := tasks h @
                            [\<lparr>phone = phone', cd_direction = direction c,
                              duration = duration', status = status', uniqueid = u,
                              timestamp = start_time c,
                              internal_call = Some (length (callerid c) \<le> 4)\<rparr>],
                         active_channels := (active_channels h)(u := None)\<rparr>))
      | _ \<Rightarrow> h)"

text \<open>The manager calls the handler registered for the event's name.\<close>

fun dispatch :: "datetime \<times> ami_event \<Rightarrow> ami_handler \<Rightarrow> ami_handler" where
  "dispatch (now, Newchannel u ch cid ex ctx) h = on_new_channel now (Newchannel u ch cid ex ctx) h"
| "dispatch (now, BridgeEnter u) h = on_bridge_enter now (BridgeEnter u) h"
| "dispatch (now, Hangup u cause) h = on_hangup now (Hangup u cause) h"

fun dispatch_debug :: "debug_config \<Rightarrow> datetime \<times> ami_event \<Rightarrow> ami_handler \<Rightarrow> ami_handler" where
  "dispatch_debug cfg (now, Newchannel u ch cid ex ctx) h =
     on_new_channel_debug now (Newchannel u ch cid ex ctx) h"
| "dispatch_debug cfg (now, BridgeEnter u) h = on_bridge_enter now (BridgeEnter u) h"
| "dispatch_debug cfg (now, Hangup u cause) h = on_hangup_debug cfg now (Hangup u cause) h"

text \<open>Events are handled one at a time, in arrival order.\<close>

definition run :: "(datetime \<times> ami_event) list \<Rightarrow> ami_handler \<Rightarrow> ami_handler" where
  "run evs h = fold dispatch evs h"

definition run_debug ::
  "debug_config \<Rightarrow> (datetime \<times> ami_event) list \<Rightarrow> ami_handler \<Rightarrow> ami_handler" where
  "run_debug cfg evs h = fold (dispatch_debug cfg) evs h"

text \<open>How \<^verbatim>\<open>add_call_to_contact\<close> reads the outcome of a call: \<^verbatim>\<open>call_status\<close> 4
  (answered) for the status \<^verbatim>\<open>ANSWERED\<close>, 6 for every other status.\<close>

definition call_status :: "call_data \<Rightarrow> int" where
  "call_status cd = (if status cd = ''ANSWERED'' then 4 else 6)"

text \<open>
  What a session still owes: the tasks created so far, plus one while the identifier is
  in the table.
\<close>

definition pending :: "ami_handler \<Rightarrow> string \<Rightarrow> nat" where
  "pending h u = length (tasks h) + (if active_channels h u = None then 0 else 1)"

text \<open>The handler as \<^verbatim>\<open>__init__\<close> leaves it, and the events of one call.\<close>

definition initial_handler :: ami_handler where
  "initial_handler = \<lparr>active_channels = Map.empty, tasks = []\<rparr>"

definition ev_new :: "datetime \<times> ami_event" where
  "ev_new = (0, Newchannel ''1634567890.1'' ''SIP/from-trunk-0001'' ''8-916-123-45-67'' None None)"

definition ev_bridge :: "datetime \<times> ami_event" where
  "ev_bridge = (2000000, BridgeEnter ''1634567890.1'')"

definition ev_hangup :: "datetime \<times> ami_event" where
  "ev_hangup = (65500000, Hangup ''1634567890.1'' (Some ''Normal Clearing''))"

text \<open>The session of that call once it is bridged.\<close>

definition bridged_call :: call where
  "bridged_call =
     \<lparr>channel = ''SIP/from-trunk-0001'', callerid = ''8-916-123-45-67'', exten = None,
      context' = None, start_time = 0, direction = ''inbound'', connected = True,
      answer_time = Some 2000000\<rparr>"


text \<open>Sessions whose caller ids are the two examples, and one whose caller id ends in a
  superscript two.\<close>

definition dashed_call :: call where
  "dashed_call =
     \<lparr>channel = ''SIP/from-trunk-0001'', callerid = ''8-916-123-45-67'', exten = None,
      context' = None, start_time = 0, direction = ''inbound'', connected = False,
      answer_time = None\<rparr>"

definition short_call :: call where
  "short_call = dashed_call\<lparr>callerid := ''123''\<rparr>"

definition superscript_call :: call where
  "superscript_call = dashed_call\<lparr>callerid := ''8916123456'' @ [CHR 0xB2]\<rparr>"


section \<open>Recordings\<close>

text \<open>Exceptions of the Python code, as values.\<close>

datatype py_error =
  KeyError string
  | IndexError
  | TypeError
  | AttributeError
  | ValueError
  | OSError
  | ClientError
  | ContentTypeError

text \<open>
  A file below \<^verbatim>\<open>recordings_dir\<close>: the directories that lead to it, its name, and what
  \<^verbatim>\<open>os.path.getmtime\<close> gives for it, as a whole number of clock ticks (\<open>None\<close>: the call
  raises, as for a dangling link).
\<close>

record recording =
  dirs :: "string list"
  name :: string
  mtime :: "int option"

definition recordings_dir :: string where
  "recordings_dir = ''/var/spool/asterisk/monitor''"

definition path :: "recording \<Rightarrow> string" where
  "path f = recordings_dir @ concat (map (\<lambda>d. ''/'' @ d) (dirs f)) @ ''/'' @ name f"

text \<open>
  \<^verbatim>\<open>fnmatch\<close> of a name against a pattern, for patterns whose only wildcard is \<^verbatim>\<open>*\<close>
  (as POSIX has it: case matters).
\<close>

fun fnmatch :: "string \<Rightarrow> string \<Rightarrow> bool" where
  "fnmatch [] [] = True"
| "fnmatch (c # cs) [] = False"
| "fnmatch [] (p # ps) = (p = CHR ''*'' \<and> fnmatch [] ps)"
| "fnmatch (c # cs) (p # ps) =
     (if p = CHR ''*'' then fnmatch (c # cs) ps \<or> fnmatch cs (p # ps)
      else c = p \<and> fnmatch cs ps)"

text \<open>\<^verbatim>\<open>glob\<close> skips names that start with a dot, in \<^verbatim>\<open>**\<close> and for a pattern that
  starts with \<^verbatim>\<open>*\<close>.\<close>

definition ishidden :: "string \<Rightarrow> bool" where
  "ishidden s = startswith s ''.''"

text \<open>
  \<^verbatim>\<open>glob(recordings_dir + "/**/" + pat, recursive=True)\<close> over the files \<open>files\<close>, listed
  in the order in which the directory walk meets them.
\<close>

definition glob :: "string \<Rightarrow> recording list \<Rightarrow> recording list" where
  "glob pat files =
     filter (\<lambda>f. \<not> ishidden (name f) \<and> list_all (\<lambda>d. \<not> ishidden d) (dirs f)
                 \<and> fnmatch (name f) pat) files"

text \<open>\<^verbatim>\<open>max(files, key=os.path.getmtime)\<close>: the keys are taken in order, a later file
  wins only with a strictly greater key.\<close>

fun max_from :: "recording \<Rightarrow> int \<Rightarrow> recording list \<Rightarrow> py_error + recording" where
  "max_from best k [] = Inr best"
| "max_from best k (f # fs) =
     (case mtime f of
        None \<Rightarrow> Inl OSError
      | Some t \<Rightarrow> if k < t then max_from f t fs else max_from best k fs)"

definition max_getmtime :: "recording list \<Rightarrow> py_error + recording" where
  "max_getmtime files =
     (case files of
        [] \<Rightarrow> Inl ValueError
      | f # fs \<Rightarrow> (case mtime f of None \<Rightarrow> Inl OSError | Some t \<Rightarrow> max_from f t fs))"

fun first_pattern :: "string list \<Rightarrow> recording list \<Rightarrow> py_error + string option" where
  "first_pattern [] files = Inr None"
| "first_pattern (pat # pats) files =
     (let found = glob pat files in
      if found \<noteq> [] then
        (case max_getmtime found of Inl e \<Rightarrow> Inl e | Inr f \<Rightarrow> Inr (Some (path f)))
      else first_pattern pats files)"

definition patterns :: "string \<Rightarrow> string list" where
  "patterns uid = [''*'' @ uid @ ''*.wav'', ''*'' @ uid @ ''*.WAV'', ''*'' @ uid @ ''*.mp3'']"

definition find_recording :: "recording list \<Rightarrow> string \<Rightarrow> py_error + string option" where
  "find_recording files uid = first_pattern (patterns uid) files"

text \<open>An identifier without the characters that \<^verbatim>\<open>glob\<close> reads as syntax.\<close>

definition plain_id :: "string \<Rightarrow> bool" where
  "plain_id uid = list_all (\<lambda>c. c \<notin> set ''*?[/'') uid"

text \<open>Three recordings of one call.\<close>

definition rec_wav :: recording where
  "rec_wav = \<lparr>dirs = [''2021'', ''10'', ''18''], name = ''in-1634567890.1.wav'', mtime = Some 100\<rparr>"

definition rec_mp3 :: recording where
  "rec_mp3 = \<lparr>dirs = [''2021'', ''10'', ''18''], name = ''out-1634567890.1.mp3'', mtime = Some 200\<rparr>"

definition rec_Wav :: recording where
  "rec_Wav = \<lparr>dirs = [''2021'', ''10'', ''18''], name = ''q-1634567890.1.Wav'', mtime = Some 300\<rparr>"

text \<open>The files \<^verbatim>\<open>glob\<close> returns for one extension, and what it is for one of them to be
  the most recently modified.\<close>

definition candidates :: "string \<Rightarrow> recording list \<Rightarrow> string \<Rightarrow> recording list" where
  "candidates ext files uid = glob (''*'' @ uid @ ''*.'' @ ext) files"

definition newest_of :: "recording list \<Rightarrow> recording \<Rightarrow> bool" where
  "newest_of fs f =
     (f \<in> set fs \<and>
      (case mtime f of
         None \<Rightarrow> False
       | Some t \<Rightarrow> list_all (\<lambda>g. case mtime g of None \<Rightarrow> False | Some s \<Rightarrow> s \<le> t) fs))"


section \<open>The CRM client\<close>

subsection \<open>JSON values\<close>

text \<open>
  What \<^verbatim>\<open>json.load\<close> and \<^verbatim>\<open>resp.json()\<close> return: \<^verbatim>\<open>None\<close>, a bool, a number (integers
  only here), a string, a list or a dict. A dict is its list of items; its keys are
  distinct.
\<close>

datatype json =
  JNull
  | JBool bool
  | JNum int
  | JStr string
  | JArr "json list"
  | JObj "(string \<times> json) list"

text \<open>The truth value Python gives a value in \<^verbatim>\<open>if x\<close> and \<^verbatim>\<open>x and y\<close>.\<close>

fun truthy :: "json \<Rightarrow> bool" where
  "truthy JNull = False"
| "truthy (JBool b) = b"
| "truthy (JNum n) = (n \<noteq> 0)"
| "truthy (JStr s) = (s \<noteq> [])"
| "truthy (JArr xs) = (xs \<noteq> [])"
| "truthy (JObj kvs) = (kvs \<noteq> [])"

text \<open>\<^verbatim>\<open>x[key]\<close> for a string key.\<close>

fun getitem :: "json \<Rightarrow> string \<Rightarrow> py_error + json" where
  "getitem (JObj kvs) k = (case map_of kvs k of None \<Rightarrow> Inl (KeyError k) | Some v \<Rightarrow> Inr v)"
| "getitem _ k = Inl TypeError"

text \<open>\<^verbatim>\<open>x[0]\<close>\<close>

fun getitem0 :: "json \<Rightarrow> py_error + json" where
  "getitem0 (JArr []) = Inl IndexError"
| "getitem0 (JArr (x # xs)) = Inr x"
| "getitem0 (JStr []) = Inl IndexError"
| "getitem0 (JStr (c # cs)) = Inr (JStr [c])"
| "getitem0 (JObj kvs) = Inl (KeyError ''0'')"
| "getitem0 _ = Inl TypeError"

text \<open>\<^verbatim>\<open>x.get(key, default)\<close>: only a dict has the method.\<close>

fun dict_get :: "json \<Rightarrow> string \<Rightarrow> json \<Rightarrow> py_error + json" where
  "dict_get (JObj kvs) k dflt = (case map_of kvs k of None \<Rightarrow> Inr dflt | Some v \<Rightarrow> Inr v)"
| "dict_get _ k dflt = Inl AttributeError"

subsection \<open>The network and the token file\<close>

text \<open>A URL written as an f-string: literal text and formatted values.\<close>

datatype url_part = Lit string | Fmt json

text \<open>
  A request as it leaves the process: method, URL, the token put after \<^verbatim>\<open>Bearer\<close> in the
  \<^verbatim>\<open>Authorization\<close> header (\<open>None\<close>: no such header), the \<^verbatim>\<open>json=\<close> body, and for a
  multipart upload the path of the file sent.
\<close>

record http_request =
  rq_method :: string
  rq_url :: "url_part list"
  rq_bearer :: "json option"
  rq_json :: "json option"
  rq_file :: "string option"

text \<open>
  What comes back: a response with its status and, when \<^verbatim>\<open>resp.json()\<close> can read it, its
  JSON body; or no response at all (\<^verbatim>\<open>aiohttp\<close> raises \<^verbatim>\<open>ClientError\<close>).
\<close>

datatype net_result = Response int "json option" | Failure

text \<open>
  What \<^verbatim>\<open>tokens.json\<close> holds: nothing (no such file), a file cut short (opened for
  writing, so emptied, and not or not fully written), or the access token, the refresh
  token and \<^verbatim>\<open>updated_at\<close> of a completed \<^verbatim>\<open>json.dump\<close>.
\<close>

datatype token_file_content = No_file | Cut_short | Saved json json datetime

text \<open>Where writing the token file goes wrong, if it does: at \<^verbatim>\<open>open\<close>, at
  \<^verbatim>\<open>json.dump\<close> or at \<^verbatim>\<open>os.chmod\<close>.\<close>

datatype disk_fault = No_fault | Open_fails | Write_fails | Chmod_fails

text \<open>
  The client object and what it touches. \<open>net\<close> holds the outcomes of the HTTP exchanges
  to come, in the order the requests are made (none left: the request fails); \<open>sent\<close> the
  requests made so far; \<open>token_file\<close> and \<open>token_file_mode\<close> are the content and the
  permission bits of \<^verbatim>\<open>tokens.json\<close>, \<open>create_mode\<close> the bits a newly created file gets,
  and \<open>disk\<close> says where a write of it fails; \<open>clock\<close> is \<^verbatim>\<open>datetime.now()\<close>;
  \<open>recordings\<close> are the files below \<^verbatim>\<open>recordings_dir\<close>, with \<open>unreadable\<close> the paths that
  cannot be opened for reading.
\<close>

record amocrm =
  base_url :: string
  client_id :: json
  client_secret :: json
  redirect_uri :: json
  access_token :: json
  refresh_token :: json
  token_file :: token_file_content
  token_file_mode :: nat
  create_mode :: nat
  disk :: disk_fault
  clock :: datetime
  net :: "net_result list"
  sent :: "http_request list"
  recordings :: "recording list"
  unreadable :: "string list"

definition http :: "http_request \<Rightarrow> amocrm \<Rightarrow> (py_error + int \<times> json option) \<times> amocrm" where
  "http rq w =
     (let w' = w\<lparr>sent := sent w @ [rq]\<rparr> in
      case net w of
        [] \<Rightarrow> (Inl ClientError, w')
      | Failure # rest \<Rightarrow> (Inl ClientError, w'\<lparr>net := rest\<rparr>)
      | Response st body # rest \<Rightarrow> (Inr (st, body), w'\<lparr>net := rest\<rparr>))"

text \<open>
  \<^verbatim>\<open>save_tokens\<close>: \<^verbatim>\<open>open(token_file, 'w')\<close> creates the file or empties it, \<^verbatim>\<open>json.dump\<close>
  writes the two tokens and the time, \<^verbatim>\<open>os.chmod\<close> sets the bits \<^verbatim>\<open>0o600\<close> (384). Each of
  the three can raise \<^verbatim>\<open>OSError\<close>, and what was done before stays done.
\<close>

definition save_tokens :: "amocrm \<Rightarrow> (py_error + unit) \<times> amocrm" where
  "save_tokens w =
     (if disk w = Open_fails then (Inl OSError, w)
      else
        (let opened = w\<lparr>token_file := Cut_short,
                         token_file_mode :=
                           (if token_file w = No_file then create_mode w
                            else token_file_mode w)\<rparr>
         in if disk w = Write_fails then (Inl OSError, opened)
            else
              (let written =
                     opened\<lparr>token_file := Saved (access_token w) (refresh_token w) (clock w)\<rparr>
               in if disk w = Chmod_fails then (Inl OSError, written)
                  else (Inr (), written\<lparr>token_file_mode := 384\<rparr>))))"

subsection \<open>Token refresh\<close>

definition refresh_request :: "amocrm \<Rightarrow> http_request" where
  "refresh_request w =
     \<lparr>rq_method = ''POST'', rq_url = [Lit (base_url w @ ''/oauth2/access_token'')],
      rq_bearer = None,
      rq_json = Some (JObj
        [(''client_id'', client_id w),
         (''client_secret'', client_secret w),
         (''grant_type'', JStr ''refresh_token''),
         (''refresh_token'', refresh_token w),
         (''redirect_uri'', redirect_uri w)]),
      rq_file = None\<rparr>"

text \<open>What \<^verbatim>\<open>refresh_tokens\<close> does with the response once it has arrived.\<close>

definition refresh_receive :: "int \<times> json option \<Rightarrow> amocrm \<Rightarrow> (py_error + unit) \<times> amocrm" where
  "refresh_receive resp w =
     (case snd resp of
        None \<Rightarrow> (Inl ContentTypeError, w)
      | Some result \<Rightarrow>
          (case getitem result ''access_token'' of
             Inl e \<Rightarrow> (Inl e, w)
           | Inr a \<Rightarrow>
               (let w1 = w\<lparr>access_token := a\<rparr> in
                case getitem result ''refresh_token'' of
                  Inl e \<Rightarrow> (Inl e, w1)
                | Inr r \<Rightarrow> save_tokens (w1\<lparr>refresh_token := r\<rparr>))))"

definition refresh_tokens :: "amocrm \<Rightarrow> (py_error + unit) \<times> amocrm" where
  "refresh_tokens w =
     (case http (refresh_request w) w of
        (Inl e, w1) \<Rightarrow> (Inl e, w1)
      | (Inr resp, w1) \<Rightarrow> refresh_receive resp w1)"

subsection \<open>Requests\<close>

definition api_http_request ::
  "string \<Rightarrow> url_part list \<Rightarrow> json option \<Rightarrow> amocrm \<Rightarrow> http_request" where
  "api_http_request meth endpoint data w =
     \<lparr>rq_method = meth, rq_url = Lit (base_url w @ ''/api/v4/'') # endpoint,
      rq_bearer = Some (access_token w), rq_json = data, rq_file = None\<rparr>"

text \<open>\<^verbatim>\<open>api_request\<close>; the result \<^verbatim>\<open>None\<close> is \<open>JNull\<close>.\<close>

function api_request ::
  "string \<Rightarrow> url_part list \<Rightarrow> json option \<Rightarrow> bool \<Rightarrow> amocrm \<Rightarrow> (py_error + json) \<times> amocrm"
where
  "api_request meth endpoint data retry w =
     (case http (api_http_request meth endpoint data w) w of
        (Inl e, w1) \<Rightarrow> (Inl e, w1)
      | (Inr (st, body), w1) \<Rightarrow>
          if st = 401 \<and> retry then
            (case refresh_tokens w1 of
               (Inl e, w2) \<Rightarrow> (Inl e, w2)
             | (Inr u, w2) \<Rightarrow> api_request meth endpoint data False w2)
          else if st \<ge> 400 then (Inr JNull, w1)
          else (case body of None \<Rightarrow> (Inl ContentTypeError, w1) | Some j \<Rightarrow> (Inr j, w1)))"
  by pat_completeness auto
termination
  by (relation "measure (\<lambda>(meth, endpoint, data, retry, w). if retry then 1 else 0)") auto

declare api_request.simps [simp del]

subsection \<open>Contacts, leads and notes\<close>

text \<open>\<^verbatim>\<open>find_contact\<close> of \<^verbatim>\<open>integration.py\<close>.\<close>

definition find_contact :: "string \<Rightarrow> amocrm \<Rightarrow> (py_error + json) \<times> amocrm" where
  "find_contact ph w =
     (let phone_clean = filter str_isdigit ph in
      case api_request ''GET'' [Lit (''contacts?query='' @ phone_clean)] None True w of
        (Inl e, w1) \<Rightarrow> (Inl e, w1)
      | (Inr result, w1) \<Rightarrow>
          if \<not> truthy result then (Inr JNull, w1)
          else
            (case dict_get result ''_embedded'' (JObj []) of
               Inl e \<Rightarrow> (Inl e, w1)
             | Inr embedded \<Rightarrow>
                 (case dict_get embedded ''contacts'' JNull of
                    Inl e \<Rightarrow> (Inl e, w1)
                  | Inr contacts \<Rightarrow>
                      if truthy contacts then (getitem0 contacts, w1) else (Inr JNull, w1))))"

text \<open>
  \<^verbatim>\<open>find_contact\<close> of \<^verbatim>\<open>integration_debug.py\<close>: before it returns the contact it
  writes a log line for which it reads \<^verbatim>\<open>contact['id']\<close> and
  \<^verbatim>\<open>contact.get('name', 'N/A')\<close>, and either can raise.
\<close>

definition find_contact_debug :: "string \<Rightarrow> amocrm \<Rightarrow> (py_error + json) \<times> amocrm" where
  "find_contact_debug ph w =
     (let phone_clean = filter str_isdigit ph in
      case api_request ''GET'' [Lit (''contacts?query='' @ phone_clean)] None True w of
        (Inl e, w1) \<Rightarrow> (Inl e, w1)
      | (Inr result, w1) \<Rightarrow>
          if \<not> truthy result then (Inr JNull, w1)
          else
            (case dict_get result ''_embedded'' (JObj []) of
               Inl e \<Rightarrow> (Inl e, w1)
             | Inr embedded \<Rightarrow>
                 (case dict_get embedded ''contacts'' JNull of
                    Inl e \<Rightarrow> (Inl e, w1)
                  | Inr contacts \<Rightarrow>
                      if truthy contacts then
                        (case getitem0 contacts of
                           Inl e \<Rightarrow> (Inl e, w1)
                         | Inr contact \<Rightarrow>
                             (case getitem contact ''id'' of
                                Inl e \<Rightarrow> (Inl e, w1)
                              | Inr contact_id \<Rightarrow>
                                  (case dict_get contact ''name'' (JStr ''N/A'') of
                                     Inl e \<Rightarrow> (Inl e, w1)
                                   | Inr contact_name \<Rightarrow> (Inr contact, w1))))
                      else (Inr JNull, w1))))"

text \<open>
  The texts the source writes in Russian are given here in English: the lead's name
  ("new call from" and the number) and the two call results ("successful", "not
  answered").
\<close>

definition unsorted_data :: "string \<Rightarrow> json" where
  "unsorted_data ph =
     JArr [JObj
       [(''source_name'', JStr ''FreePBX''),
        (''source_uid'', JStr ph),
        (''pipeline_id'', JNull),
        (''_embedded'', JObj
          [(''leads'', JArr [JObj
             [(''name'', JStr (''New call from '' @ ph)),
              (''custom_fields_values'', JArr [JObj
                 [(''field_code'', JStr ''PHONE''),
                  (''values'', JArr [JObj [(''value'', JStr ph)]])]])]])])]]"

definition create_unsorted :: "string \<Rightarrow> amocrm \<Rightarrow> (py_error + json) \<times> amocrm" where
  "create_unsorted ph w =
     api_request ''POST'' [Lit ''leads/unsorted/forms''] (Some (unsorted_data ph)) True w"

text \<open>\<^verbatim>\<open>upload_recording\<close> catches every exception: a file that cannot be read is not
  sent, and whatever the upload request brings is dropped.\<close>

definition upload_recording :: "json \<Rightarrow> string \<Rightarrow> amocrm \<Rightarrow> amocrm" where
  "upload_recording contact_id file_path w =
     (if file_path \<in> set (unreadable w) then w
      else snd (http
        \<lparr>rq_method = ''POST'',
         rq_url = [Lit (base_url w @ ''/api/v4/contacts/''), Fmt contact_id, Lit ''/files''],
         rq_bearer = Some (access_token w), rq_json = None, rq_file = Some file_path\<rparr> w))"

text \<open>\<^verbatim>\<open>os.path.exists\<close> on a path below \<^verbatim>\<open>recordings_dir\<close>.\<close>

definition path_exists :: "amocrm \<Rightarrow> string \<Rightarrow> bool" where
  "path_exists w p = list_ex (\<lambda>f. path f = p \<and> mtime f \<noteq> None) (recordings w)"

definition call_note :: "string \<Rightarrow> json \<Rightarrow> string \<Rightarrow> call_data \<Rightarrow> json" where
  "call_note note_type contact_id ph cd =
     JObj
       [(''entity_id'', contact_id),
        (''note_type'', JStr note_type),
        (''params'', JObj
          [(''phone'', JStr ph),
           (''duration'', JNum (duration cd)),
           (''call_status'', JNum (call_status cd)),
           (''call_result'',
              JStr (if status cd = ''ANSWERED'' then ''Successful'' else ''Not answered''))])]"

text \<open>The note type in \<^verbatim>\<open>integration.py\<close> and in \<^verbatim>\<open>integration_debug.py\<close>.\<close>

definition note_type :: "call_data \<Rightarrow> string" where
  "note_type cd = (if cd_direction cd = ''inbound'' then ''call_in'' else ''call_out'')"

definition note_type_debug :: "call_data \<Rightarrow> string" where
  "note_type_debug cd =
     (if cd_direction cd = ''inbound'' then ''call_in''
      else if cd_direction cd = ''outbound'' then ''call_out''
      else ''call_in'')"

text \<open>\<^verbatim>\<open>add_call_to_contact\<close>, with the note type of the file at hand.\<close>

definition add_call_to_contact ::
  "string \<Rightarrow> json \<Rightarrow> string \<Rightarrow> call_data \<Rightarrow> string option \<Rightarrow> amocrm
   \<Rightarrow> (py_error + json) \<times> amocrm" where
  "add_call_to_contact ntype contact_id ph cd recording_path w =
     (case api_request ''POST'' [Lit ''contacts/'', Fmt contact_id, Lit ''/notes'']
             (Some (JArr [call_note ntype contact_id ph cd])) True w of
        (Inl e, w1) \<Rightarrow> (Inl e, w1)
      | (Inr result, w1) \<Rightarrow>
          (case recording_path of
             None \<Rightarrow> (Inr result, w1)
           | Some p \<Rightarrow>
               if p \<noteq> [] \<and> path_exists w1 p
               then (Inr result, upload_recording contact_id p w1)
               else (Inr result, w1)))"

text \<open>\<^verbatim>\<open>process_call\<close> for a task of the event handler, with the \<^verbatim>\<open>find_contact\<close> and
  the note type of the file at hand.\<close>

definition process_call_with ::
  "(string \<Rightarrow> amocrm \<Rightarrow> (py_error + json) \<times> amocrm) \<Rightarrow> (call_data \<Rightarrow> string)
   \<Rightarrow> call_data \<Rightarrow> amocrm \<Rightarrow> (py_error + unit) \<times> amocrm" where
  "process_call_with find_fn ntype cd w =
     (case find_fn (phone cd) w of
        (Inl e, w1) \<Rightarrow> (Inl e, w1)
      | (Inr contact, w1) \<Rightarrow>
          if \<not> truthy contact then
            (case create_unsorted (phone cd) w1 of
               (Inl e, w2) \<Rightarrow> (Inl e, w2)
             | (Inr r, w2) \<Rightarrow> (Inr (), w2))
          else
            (case find_recording (recordings w1) (uniqueid cd) of
               Inl e \<Rightarrow> (Inl e, w1)
             | Inr recording_path \<Rightarrow>
                 (case getitem contact ''id'' of
                    Inl e \<Rightarrow> (Inl e, w1)
                  | Inr contact_id \<Rightarrow>
                      (case add_call_to_contact (ntype cd) contact_id (phone cd) cd
                              recording_path w1 of
                         (Inl e, w2) \<Rightarrow> (Inl e, w2)
                       | (Inr r, w2) \<Rightarrow> (Inr (), w2)))))"

definition process_call :: "call_data \<Rightarrow> amocrm \<Rightarrow> (py_error + unit) \<times> amocrm" where
  "process_call = process_call_with find_contact note_type"

definition process_call_debug :: "call_data \<Rightarrow> amocrm \<Rightarrow> (py_error + unit) \<times> amocrm" where
  "process_call_debug = process_call_with find_contact_debug note_type_debug"

text \<open>The lookup request of \<^verbatim>\<open>find_contact\<close> for a task, and the branch of
  \<^verbatim>\<open>process_call\<close> that creates the unsorted lead and returns.\<close>

definition lookup_request :: "call_data \<Rightarrow> amocrm \<Rightarrow> (py_error + json) \<times> amocrm" where
  "lookup_request cd w =
     api_request ''GET'' [Lit (''contacts?query='' @ filter str_isdigit (phone cd))] None True w"

definition unsorted_only :: "call_data \<Rightarrow> amocrm \<Rightarrow> (py_error + unit) \<times> amocrm" where
  "unsorted_only cd w =
     (case create_unsorted (phone cd) w of
        (Inl e, w2) \<Rightarrow> (Inl e, w2)
      | (Inr r, w2) \<Rightarrow> (Inr (), w2))"

subsection \<open>A client to run\<close>

text \<open>An authorised client with nothing sent yet, and the body of a successful token
  response.\<close>

definition crm0 :: amocrm where
  "crm0 =
     \<lparr>base_url = ''https://example.amocrm.ru'', client_id = JStr ''client'',
      client_secret = JStr ''secret'', redirect_uri = JStr ''https://example.org/oauth'',
      access_token = JStr ''access-1'', refresh_token = JStr ''refresh-1'',
      token_file = Saved (JStr ''access-1'') (JStr ''refresh-1'') 0, token_file_mode = 384,
      create_mode = 420, disk = No_fault, clock = 3600000000, net = [], sent = [], recordings = [], unreadable = []\<rparr>"

definition new_tokens :: json where
  "new_tokens = JObj [(''token_type'', JStr ''Bearer''), (''expires_in'', JNum 86400),
     (''access_token'', JStr ''access-2''), (''refresh_token'', JStr ''refresh-2'')]"

definition no_contacts :: json where
  "no_contacts = JObj [(''_embedded'', JObj [(''contacts'', JArr [])])]"

definition unauthorized :: net_result where
  "unauthorized = Response 401 (Some (JObj [(''title'', JStr ''Unauthorized'')]))"

text \<open>A contact lookup, and a client whose server answers 401 before and after the
  refresh.\<close>

definition lookup_endpoint :: "url_part list" where
  "lookup_endpoint = [Lit ''contacts?query=79161234567'']"

definition crm_401_twice :: amocrm where
  "crm_401_twice = crm0\<lparr>net := [unauthorized, Response 200 (Some new_tokens), unauthorized]\<rparr>"

text \<open>The task of the answered call of the example.\<close>

definition answered_call :: call_data where
  "answered_call =
     \<lparr>phone = ''79161234567'', cd_direction = ''inbound'', duration = 63,
      status = ''ANSWERED'', uniqueid = ''1634567890.1'', timestamp = 0,
      internal_call = None\<rparr>"

text \<open>A client whose server answers the lookup with 401, refreshes the tokens, answers
  the repeated lookup with 503 and then accepts a lead.\<close>

definition crm_outage :: amocrm where
  "crm_outage = crm0\<lparr>net := [unauthorized, Response 200 (Some new_tokens), Response 503 None,
     Response 200 (Some (JObj [(''_embedded'', JObj [(''unsorted'', JArr [])])]))]\<rparr>"


text \<open>The same client with the CRM out of reach, and with a CRM that knows no contact for
  the number.\<close>

definition crm_unreachable :: amocrm where
  "crm_unreachable = crm0\<lparr>net := [Failure]\<rparr>"

definition crm_no_contact :: amocrm where
  "crm_no_contact = crm0\<lparr>net := [Response 200 (Some no_contacts),
     Response 200 (Some (JObj [(''_embedded'', JObj [(''unsorted'', JArr [])])]))]\<rparr>"


section \<open>Refreshes running side by side\<close>

text \<open>
  Tasks of one event loop take turns at their \<^verbatim>\<open>await\<close>s. A call of \<^verbatim>\<open>refresh_tokens\<close>
  has one place where it waits on the network, the \<^verbatim>\<open>session.post\<close>: up to there it
  builds the request from the stored refresh token and sends it; once the response is
  there it reads it, stores the tokens and saves them. A call is therefore in one of
  three states: not started, waiting for the outcome of its request, or returned.
\<close>

datatype refresh_task =
  Not_started
  | Awaiting "py_error + int \<times> json option"
  | Returned "py_error + unit"

text \<open>One turn of a call, on the client all calls share.\<close>

fun advance :: "refresh_task \<Rightarrow> amocrm \<Rightarrow> refresh_task \<times> amocrm" where
  "advance Not_started w = (case http (refresh_request w) w of (r, w') \<Rightarrow> (Awaiting r, w'))"
| "advance (Awaiting (Inl e)) w = (Returned (Inl e), w)"
| "advance (Awaiting (Inr resp)) w =
     (case refresh_receive resp w of (res, w') \<Rightarrow> (Returned res, w'))"
| "advance (Returned r) w = (Returned r, w)"

text \<open>The event loop gives the next turn to call number \<open>i\<close>.\<close>

fun turn :: "nat \<Rightarrow> refresh_task list \<times> amocrm \<Rightarrow> refresh_task list \<times> amocrm" where
  "turn i (ts, w) =
     (if i < length ts
      then (case advance (ts ! i) w of (t', w') \<Rightarrow> (ts[i := t'], w'))
      else (ts, w))"

definition interleave ::
  "nat list \<Rightarrow> refresh_task list \<times> amocrm \<Rightarrow> refresh_task list \<times> amocrm" where
  "interleave schedule s = fold turn schedule s"

definition started :: "refresh_task \<Rightarrow> bool" where
  "started t = (t \<noteq> Not_started)"

definition returned :: "refresh_task \<Rightarrow> bool" where
  "returned t = (case t of Returned r \<Rightarrow> True | _ \<Rightarrow> False)"

text \<open>Two calls against a server that accepts the first use of a refresh token and
  rejects the second.\<close>

definition crm_rotating :: amocrm where
  "crm_rotating = crm0\<lparr>net := [Response 200 (Some new_tokens),
     Response 400 (Some (JObj [(''hint'', JStr ''Token has been revoked'')]))]\<rparr>"

section \<open>Properties of the string operations\<close>

lemma contains_sublist: "contains sub s = sublist sub s"
  by (induction s) (simp_all add: sublist_Cons_right)

lemma lower_not_upper: "d \<in> set lower_chars \<Longrightarrow> d \<notin> set upper_chars"
  unfolding upper_chars_def lower_chars_def by (simp only: set_simps set_append) fastforce

lemma lower_char_idem: "lower_char (lower_char c) = lower_char c"
proof (cases "map_of (zip upper_chars lower_chars) c")
  case None
  then show ?thesis by (simp add: lower_char_def)
next
  case (Some d)
  then have "d \<in> set lower_chars" by (meson in_set_zipE map_of_SomeD)
  then have "d \<notin> set upper_chars" by (rule lower_not_upper)
  then have "map_of (zip upper_chars lower_chars) d = None"
    by (simp add: map_of_zip_is_None upper_chars_def lower_chars_def)
  with Some show ?thesis by (simp add: lower_char_def)
qed

lemma lower_idem: "lower (lower s) = lower s"
  by (simp add: lower_def lower_char_idem)


section \<open>The phone normalizer\<close>

lemma extract_phone_digits:
  "extract_phone c =
     (let digits = filter str_isdigit (callerid c) in
      if length digits < 10 then None
      else if length digits = 11 \<and> hd digits = CHR ''8'' then Some (CHR ''7'' # tl digits)
      else Some digits)"
  by (cases "filter str_isdigit (callerid c)")
     (auto simp: extract_phone_def startswith_def Let_def)

lemma PhoneNormalizer_digits:
  "PhoneNormalizer raw =
     (let digits = filter decimal_digit raw in
      if length digits < 10 then None
      else if length digits = 11 \<and> hd digits = CHR ''8'' then Some (CHR ''7'' # tl digits)
      else Some digits)"
  by (cases "filter decimal_digit raw") (auto simp: PhoneNormalizer_def Let_def)

lemma decimal_isdigit: "decimal_digit x \<Longrightarrow> str_isdigit x"
  by (auto simp: decimal_digit_def str_isdigit_def)

lemma filter_isdigit_decimal:
  "list_all (\<lambda>x. str_isdigit x \<longrightarrow> decimal_digit x) s \<Longrightarrow>
   filter str_isdigit s = filter decimal_digit s"
  by (induction s) (auto dest: decimal_isdigit)

text \<open>
  C2, as the code has it. \<^verbatim>\<open>extract_phone\<close> keeps the characters of the caller id for
  which \<^verbatim>\<open>str.isdigit\<close> holds, which are the digits 0 to 9 and further digit characters
  such as the superscript digits; eleven kept characters with a leading 8 get a leading
  7 instead; fewer than ten kept characters give \<open>None\<close>, ten or more give the kept
  string. On a caller id whose \<^verbatim>\<open>str.isdigit\<close> characters are all among 0 to 9 this is
  the normalizer of the specification.
\<close>

theorem extract_phone_normalizer:
  "extract_phone c =
     (let digits = filter str_isdigit (callerid c) in
      if length digits < 10 then None
      else if length digits = 11 \<and> hd digits = CHR ''8'' then Some (CHR ''7'' # tl digits)
      else Some digits)
   \<and> (list_all (\<lambda>x. str_isdigit x \<longrightarrow> decimal_digit x) (callerid c) \<longrightarrow>
        extract_phone c = PhoneNormalizer (callerid c))"
proof -
  have "list_all (\<lambda>x. str_isdigit x \<longrightarrow> decimal_digit x) (callerid c) \<longrightarrow>
        extract_phone c = PhoneNormalizer (callerid c)"
    by (simp add: extract_phone_digits PhoneNormalizer_digits filter_isdigit_decimal)
  with extract_phone_digits [of c] show ?thesis by blast
qed

text \<open>The two examples: \<^verbatim>\<open>8-916-123-45-67\<close> gives \<^verbatim>\<open>79161234567\<close> and \<^verbatim>\<open>123\<close> gives
  \<open>None\<close>, from the code and from the normalizer alike.\<close>

theorem extract_phone_normalizer_witness:
  "list_all (\<lambda>x. decimal_digit x \<or> \<not> str_isdigit x) (callerid dashed_call)
   \<and> list_all (\<lambda>x. decimal_digit x \<or> \<not> str_isdigit x) (callerid short_call)
   \<and> extract_phone dashed_call = Some ''79161234567''
   \<and> extract_phone short_call = None
   \<and> PhoneNormalizer (callerid dashed_call) = Some ''79161234567''
   \<and> PhoneNormalizer (callerid short_call) = None"
proof -
  have d: "list_all (\<lambda>x. str_isdigit x \<longrightarrow> decimal_digit x) (callerid dashed_call)"
    by code_simp
  have s: "list_all (\<lambda>x. str_isdigit x \<longrightarrow> decimal_digit x) (callerid short_call)"
    by code_simp
  have d': "list_all (\<lambda>x. decimal_digit x \<or> \<not> str_isdigit x) (callerid dashed_call)"
    by code_simp
  have s': "list_all (\<lambda>x. decimal_digit x \<or> \<not> str_isdigit x) (callerid short_call)"
    by code_simp
  have pd: "PhoneNormalizer (callerid dashed_call) = Some ''79161234567''" by code_simp
  have ps: "PhoneNormalizer (callerid short_call) = None" by code_simp
  from extract_phone_normalizer [of dashed_call, THEN conjunct2] d pd
  have 1: "extract_phone dashed_call = Some ''79161234567''" by simp
  from extract_phone_normalizer [of short_call, THEN conjunct2] s ps
  have 2: "extract_phone short_call = None" by simp
  from d' s' 1 2 pd ps show ?thesis by blast
qed

text \<open>
  Against C2 as stated: of the caller id \<^verbatim>\<open>8916123456\<close> followed by a superscript two
  the code keeps all eleven characters and returns them with the leading 8 turned into
  7, where stripping every character that is not one of 0 to 9 leaves the ten digits
  \<^verbatim>\<open>8916123456\<close>.
\<close>

theorem extract_phone_normalizer_counterexample:
  "extract_phone superscript_call = Some (''7916123456'' @ [CHR 0xB2])
   \<and> PhoneNormalizer (callerid superscript_call) = Some ''8916123456''"
  by code_simp


section \<open>Direction classification\<close>

text \<open>
  C3, as the code has it. In \<^verbatim>\<open>integration_debug.py\<close> the direction is a match of fixed
  markers against the lower-cased channel name and context, first match first:
  \<^verbatim>\<open>from-trunk\<close> or \<^verbatim>\<open>from-pstn\<close> in either string gives inbound; else \<^verbatim>\<open>from-internal\<close> in
  either string gives outbound; else \<^verbatim>\<open>ext-local\<close> in the context gives internal; else
  the direction is unknown. In \<^verbatim>\<open>integration.py\<close> only the channel name is looked at and
  there is no internal case. Both depend on their arguments only through their
  lower-cased forms.
\<close>

theorem detect_direction_priority:
  "detect_direction_debug chan ctx =
     (if sublist ''from-trunk'' (lower chan) \<or> sublist ''from-pstn'' (lower chan)
         \<or> sublist ''from-trunk'' (lower ctx) \<or> sublist ''from-pstn'' (lower ctx)
      then ''inbound''
      else if sublist ''from-internal'' (lower chan) \<or> sublist ''from-internal'' (lower ctx)
      then ''outbound''
      else if sublist ''ext-local'' (lower ctx) then ''internal''
      else ''unknown'')
   \<and> detect_direction chan =
     (if sublist ''from-trunk'' (lower chan) \<or> sublist ''from-pstn'' (lower chan)
      then ''inbound''
      else if sublist ''from-internal'' (lower chan) then ''outbound''
      else ''unknown'')
   \<and> (lower chan = lower chan2 \<and> lower ctx = lower ctx2 \<longrightarrow>
        detect_direction_debug chan ctx = detect_direction_debug chan2 ctx2
        \<and> detect_direction chan = detect_direction chan2)
   \<and> detect_direction_debug (lower chan) (lower ctx) = detect_direction_debug chan ctx
   \<and> detect_direction (lower chan) = detect_direction chan"
  by (simp add: detect_direction_debug_def detect_direction_def contains_sublist lower_idem
        Let_def)

theorem detect_direction_priority_witness:
  "lower ''SIP/From-Trunk-0001'' = lower ''sip/from-trunk-0001''
   \<and> lower ''Ext-Local'' = lower ''ext-local''
   \<and> detect_direction_debug ''SIP/From-Trunk-0001'' ''Ext-Local'' =
       detect_direction_debug ''sip/from-trunk-0001'' ''ext-local''
   \<and> detect_direction_debug ''SIP/from-trunk-0001'' '''' = ''inbound''
   \<and> detect_direction_debug ''SIP/from-internal-0002'' '''' = ''outbound''
   \<and> detect_direction_debug ''SIP/100-0003'' ''ext-local'' = ''internal''
   \<and> detect_direction_debug ''SIP/100-0003'' ''default'' = ''unknown''
   \<and> detect_direction_debug ''SIP/From-Internal-0002'' ''FROM-PSTN'' = ''inbound''
   \<and> detect_direction ''SIP/from-trunk-0001'' = ''inbound''
   \<and> detect_direction ''SIP/from-internal-0002'' = ''outbound''
   \<and> detect_direction ''SIP/100-0003'' = ''unknown''"
proof -
  have eq: "lower ''SIP/From-Trunk-0001'' = lower ''sip/from-trunk-0001''
            \<and> lower ''Ext-Local'' = lower ''ext-local''"
    by code_simp
  have ci: "detect_direction_debug ''SIP/From-Trunk-0001'' ''Ext-Local'' =
       detect_direction_debug ''sip/from-trunk-0001'' ''ext-local''"
    using detect_direction_priority
      [of "''SIP/From-Trunk-0001''" "''Ext-Local''" "''sip/from-trunk-0001''" "''ext-local''"] eq
    by blast
  have rest: "detect_direction_debug ''SIP/from-trunk-0001'' '''' = ''inbound''
   \<and> detect_direction_debug ''SIP/from-internal-0002'' '''' = ''outbound''
   \<and> detect_direction_debug ''SIP/100-0003'' ''ext-local'' = ''internal''
   \<and> detect_direction_debug ''SIP/100-0003'' ''default'' = ''unknown''
   \<and> detect_direction_debug ''SIP/From-Internal-0002'' ''FROM-PSTN'' = ''inbound''
   \<and> detect_direction ''SIP/from-trunk-0001'' = ''inbound''
   \<and> detect_direction ''SIP/from-internal-0002'' = ''outbound''
   \<and> detect_direction ''SIP/100-0003'' = ''unknown''"
    by code_simp
  from eq ci rest show ?thesis by blast
qed

text \<open>
  Against C3 as stated: with \<^verbatim>\<open>integration.py\<close> a new channel whose context is
  \<^verbatim>\<open>ext-local\<close> is classified unknown, and with \<^verbatim>\<open>integration_debug.py\<close> the marker
  \<^verbatim>\<open>ext-local\<close> in the channel name does not give internal.
\<close>

theorem detect_direction_counterexample:
  "map_option direction
     (active_channels
        (on_new_channel 0
           (Newchannel ''1634567890.1'' ''SIP/100-0003'' ''100'' (Some ''200'') (Some ''ext-local''))
           \<lparr>active_channels = Map.empty, tasks = []\<rparr>)
        ''1634567890.1'') = Some ''unknown''
   \<and> detect_direction_debug ''Local/ext-local-0004'' '''' = ''unknown''"
  by code_simp


section \<open>The session engine\<close>

lemma on_hangup_unknown: "active_channels h u = None \<Longrightarrow> on_hangup now (Hangup u cause) h = h"
  by (simp add: on_hangup_def)

lemma on_hangup_debug_unknown:
  "active_channels h u = None \<Longrightarrow> on_hangup_debug cfg now (Hangup u cause) h = h"
  by (simp add: on_hangup_debug_def)

lemma on_hangup_removes: "active_channels (on_hangup now (Hangup u cause) h) u = None"
  by (simp add: on_hangup_def Let_def split: option.splits prod.splits)

lemma on_hangup_debug_removes:
  "active_channels (on_hangup_debug cfg now (Hangup u cause) h) u = None"
  by (simp add: on_hangup_debug_def Let_def split: option.splits prod.splits)

lemma dispatch_pending:
  "event_uniqueid ev = u \<Longrightarrow>
   pending (dispatch (now, ev) h) u \<le> pending h u + (if is_newchannel ev then 1 else 0)
   \<and> prefix (tasks h) (tasks (dispatch (now, ev) h))"
  by (cases ev)
     (auto simp: pending_def on_new_channel_def on_bridge_enter_def on_hangup_def Let_def
           split: option.splits prod.splits)

lemma dispatch_debug_pending:
  "event_uniqueid ev = u \<Longrightarrow>
   pending (dispatch_debug cfg (now, ev) h) u \<le> pending h u + (if is_newchannel ev then 1 else 0)
   \<and> prefix (tasks h) (tasks (dispatch_debug cfg (now, ev) h))"
  by (cases ev)
     (auto simp: pending_def on_new_channel_debug_def on_bridge_enter_def on_hangup_debug_def
           Let_def split: option.splits prod.splits)

lemma run_pending:
  "\<forall>e\<in>set evs. event_uniqueid (snd e) = u \<Longrightarrow>
   pending (run evs h) u \<le> pending h u + length (filter (\<lambda>e. is_newchannel (snd e)) evs)
   \<and> prefix (tasks h) (tasks (run evs h))"
proof (induction evs arbitrary: h)
  case Nil
  then show ?case by (simp add: run_def)
next
  case (Cons e evs)
  obtain now ev where e: "e = (now, ev)" by (cases e)
  from Cons.prems e have u: "event_uniqueid ev = u" by simp
  from Cons.prems have rest: "\<forall>e\<in>set evs. event_uniqueid (snd e) = u" by simp
  have run_step: "run (e # evs) h = run evs (dispatch e h)" by (simp add: run_def)
  from dispatch_pending [OF u, of now h] Cons.IH [OF rest, of "dispatch e h"] e run_step
  show ?case by (auto split: if_splits intro: prefix_order.trans)
qed

lemma run_debug_pending:
  "\<forall>e\<in>set evs. event_uniqueid (snd e) = u \<Longrightarrow>
   pending (run_debug cfg evs h) u
     \<le> pending h u + length (filter (\<lambda>e. is_newchannel (snd e)) evs)
   \<and> prefix (tasks h) (tasks (run_debug cfg evs h))"
proof (induction evs arbitrary: h)
  case Nil
  then show ?case by (simp add: run_debug_def)
next
  case (Cons e evs)
  obtain now ev where e: "e = (now, ev)" by (cases e)
  from Cons.prems e have u: "event_uniqueid ev = u" by simp
  from Cons.prems have rest: "\<forall>e\<in>set evs. event_uniqueid (snd e) = u" by simp
  have run_step: "run_debug cfg (e # evs) h = run_debug cfg evs (dispatch_debug cfg e h)"
    by (simp add: run_debug_def)
  from dispatch_debug_pending [OF u, of cfg now h] Cons.IH [OF rest, of "dispatch_debug cfg e h"]
    e run_step
  show ?case by (auto split: if_splits intro: prefix_order.trans)
qed

lemma run_snoc: "run (evs @ [e]) h = dispatch e (run evs h)"
  by (simp add: run_def)

lemma run_debug_snoc: "run_debug cfg (evs @ [e]) h = dispatch_debug cfg e (run_debug cfg evs h)"
  by (simp add: run_debug_def)

text \<open>
  C1. Take any sequence of events that all carry the identifier \<open>u\<close>, with at most one
  \<^verbatim>\<open>Newchannel\<close> among them (one call; \<^verbatim>\<open>BridgeEnter\<close> and \<^verbatim>\<open>Hangup\<close> in any number and
  order), handled from a state whose table has no entry for \<open>u\<close>. The tasks created
  before stay as they are and at most one is added; once a \<^verbatim>\<open>Hangup\<close> for \<open>u\<close> has
  been handled the table has no entry for \<open>u\<close>; and a \<^verbatim>\<open>Hangup\<close> for an identifier that
  is not in the table changes nothing. This holds for both files, whatever the debug
  settings.
\<close>

theorem session_at_most_one_fact:
  assumes single: "\<forall>e\<in>set evs. event_uniqueid (snd e) = u"
    and once: "length (filter (\<lambda>e. is_newchannel (snd e)) evs) \<le> 1"
    and fresh: "active_channels h u = None"
  shows "prefix (tasks h) (tasks (run evs h))
       \<and> length (tasks (run evs h)) \<le> length (tasks h) + 1
       \<and> active_channels (run (evs @ [(now, Hangup u cause)]) h) u = None
       \<and> on_hangup now (Hangup u cause) h = h
       \<and> prefix (tasks h) (tasks (run_debug cfg evs h))
       \<and> length (tasks (run_debug cfg evs h)) \<le> length (tasks h) + 1
       \<and> active_channels (run_debug cfg (evs @ [(now, Hangup u cause)]) h) u = None
       \<and> on_hangup_debug cfg now (Hangup u cause) h = h"
proof -
  from fresh have p0: "pending h u = length (tasks h)" by (simp add: pending_def)
  have le: "length (tasks (run evs h)) \<le> pending (run evs h) u"
    by (simp add: pending_def)
  have led: "length (tasks (run_debug cfg evs h)) \<le> pending (run_debug cfg evs h) u"
    by (simp add: pending_def)
  from run_pending [OF single, of h] p0 once le
  have a: "prefix (tasks h) (tasks (run evs h))
       \<and> length (tasks (run evs h)) \<le> length (tasks h) + 1" by simp
  from run_debug_pending [OF single, of cfg h] p0 once led
  have b: "prefix (tasks h) (tasks (run_debug cfg evs h))
       \<and> length (tasks (run_debug cfg evs h)) \<le> length (tasks h) + 1" by simp
  have c: "active_channels (run (evs @ [(now, Hangup u cause)]) h) u = None"
    by (simp add: run_snoc on_hangup_removes)
  have d: "active_channels (run_debug cfg (evs @ [(now, Hangup u cause)]) h) u = None"
    by (simp add: run_debug_snoc on_hangup_debug_removes)
  from a b c d on_hangup_unknown [OF fresh] on_hangup_debug_unknown [OF fresh]
  show ?thesis by simp
qed

text \<open>One call, answered and hung up: one task, and the table is empty again.\<close>

theorem session_at_most_one_fact_witness:
  "map (\<lambda>e. event_uniqueid (snd e)) [ev_new, ev_bridge, ev_hangup]
     = [''1634567890.1'', ''1634567890.1'', ''1634567890.1'']
   \<and> length (filter (\<lambda>e. is_newchannel (snd e)) [ev_new, ev_bridge, ev_hangup]) \<le> 1
   \<and> active_channels initial_handler ''1634567890.1'' = None
   \<and> length (tasks (run [ev_new, ev_bridge, ev_hangup] initial_handler)) \<le> 1
   \<and> active_channels (run [ev_new, ev_bridge, ev_hangup] initial_handler) ''1634567890.1'' = None
   \<and> on_hangup 65500000 (Hangup ''1634567890.1'' (Some ''Normal Clearing'')) initial_handler
       = initial_handler"
proof -
  have h1: "\<forall>e\<in>set [ev_new, ev_bridge, ev_hangup]. event_uniqueid (snd e) = ''1634567890.1''"
    by (simp add: ev_new_def ev_bridge_def ev_hangup_def)
  have h2: "length (filter (\<lambda>e. is_newchannel (snd e)) [ev_new, ev_bridge, ev_hangup]) \<le> 1"
    by (simp add: ev_new_def ev_bridge_def ev_hangup_def)
  have h3: "active_channels initial_handler ''1634567890.1'' = None"
    by (simp add: initial_handler_def)
  have h4: "active_channels (run [ev_new, ev_bridge, ev_hangup] initial_handler)
              ''1634567890.1'' = None"
    by code_simp
  have h5: "map (\<lambda>e. event_uniqueid (snd e)) [ev_new, ev_bridge, ev_hangup]
     = [''1634567890.1'', ''1634567890.1'', ''1634567890.1'']"
    by (simp add: ev_new_def ev_bridge_def ev_hangup_def)
  from session_at_most_one_fact [OF h1 h2 h3, of 65500000 "Some ''Normal Clearing''"] h2 h3 h4 h5
  show ?thesis by (simp add: initial_handler_def)
qed

lemma run_one_call:
  "tasks (run [ev_new, ev_bridge, ev_hangup] initial_handler) =
     [\<lparr>phone = ''79161234567'', cd_direction = ''inbound'', duration = 63,
       status = ''ANSWERED'', uniqueid = ''1634567890.1'', timestamp = 0,
       internal_call = None\<rparr>]"
  by code_simp

text \<open>Two calls that reuse one identifier are two sessions, with a task each.\<close>

lemma run_two_calls:
  "length (tasks (run [ev_new, ev_hangup, ev_new, ev_hangup] initial_handler)) = 2"
  by code_simp

subsection \<open>Duration and status at hangup\<close>

lemma on_hangup_emits:
  assumes "active_channels h u = Some c" "extract_phone c = Some p"
  shows "tasks (on_hangup now (Hangup u cause) h) = tasks h @
     [\<lparr>phone = p, cd_direction = direction c,
       duration = (case answer_time c of None \<Rightarrow> 0 | Some a \<Rightarrow> timedelta_seconds now a),
       status = (case answer_time c of
                   None \<Rightarrow> (case cause of None \<Rightarrow> ''UNKNOWN'' | Some t \<Rightarrow> t)
                 | Some a \<Rightarrow> ''ANSWERED''),
       uniqueid = u, timestamp = start_time c, internal_call = None\<rparr>]"
  using assms by (simp add: on_hangup_def Let_def split: option.splits)

lemma on_hangup_debug_emits:
  assumes "active_channels h u = Some c" "extract_phone c = Some p"
  shows "tasks (on_hangup_debug cfg now (Hangup u cause) h) = tasks h @
     [\<lparr>phone = p, cd_direction = direction c,
       duration = (case answer_time c of None \<Rightarrow> 0 | Some a \<Rightarrow> timedelta_seconds now a),
       status = (case answer_time c of
                   None \<Rightarrow> (case cause of None \<Rightarrow> ''UNKNOWN'' | Some t \<Rightarrow> t)
                 | Some a \<Rightarrow> ''ANSWERED''),
       uniqueid = u, timestamp = start_time c,
       internal_call = Some (length (callerid c) \<le> 4)\<rparr>]"
  using assms by (simp add: on_hangup_debug_def Let_def split: option.splits)

lemma timedelta_seconds_short:
  "a \<le> e \<Longrightarrow> e - a < 86400000000 \<Longrightarrow> timedelta_seconds e a = (e - a) div 1000000"
proof -
  assume "a \<le> e" "e - a < 86400000000"
  then have "0 \<le> (e - a) div 1000000" "(e - a) div 1000000 < 86400" by auto
  then show ?thesis by (simp add: timedelta_seconds_def)
qed

lemma on_hangup_fact:
  assumes "active_channels h u = Some c"
    and "tasks (on_hangup now (Hangup u cause) h) = tasks h @ [f]"
  shows "duration f = (case answer_time c of None \<Rightarrow> 0 | Some a \<Rightarrow> timedelta_seconds now a)
     \<and> status f = (case answer_time c of
                      None \<Rightarrow> (case cause of None \<Rightarrow> ''UNKNOWN'' | Some t \<Rightarrow> t)
                    | Some a \<Rightarrow> ''ANSWERED'')"
  using assms by (auto simp: on_hangup_def Let_def split: option.splits)

lemma on_hangup_debug_fact:
  assumes "active_channels h u = Some c"
    and "tasks (on_hangup_debug cfg now (Hangup u cause) h) = tasks h @ [f]"
  shows "duration f = (case answer_time c of None \<Rightarrow> 0 | Some a \<Rightarrow> timedelta_seconds now a)
     \<and> status f = (case answer_time c of
                      None \<Rightarrow> (case cause of None \<Rightarrow> ''UNKNOWN'' | Some t \<Rightarrow> t)
                    | Some a \<Rightarrow> ''ANSWERED'')"
  using assms by (auto simp: on_hangup_debug_def Let_def split: option.splits if_splits)

text \<open>
  C4, as the code has it. Let a \<^verbatim>\<open>Hangup\<close> for a session in the table create the task
  \<open>f\<close>, in either file. If the session was never bridged, the duration is 0 and the
  status is the hangup's cause text (\<^verbatim>\<open>UNKNOWN\<close> when the event has none), which is read
  as "not answered" exactly when that text is not \<^verbatim>\<open>ANSWERED\<close>. If it was bridged at
  \<open>a\<close>, the status is \<^verbatim>\<open>ANSWERED\<close>, read as answered, and for a hangup not before \<open>a\<close>
  and less than 24 hours after it the duration is the number of whole seconds from \<open>a\<close>
  to the hangup. A session with a usable caller number does create such a task.
\<close>

theorem hangup_duration_status:
  assumes present: "active_channels h u = Some c"
    and emitted: "tasks (on_hangup now (Hangup u cause) h) = tasks h @ [f]
                  \<or> tasks (on_hangup_debug cfg now (Hangup u cause) h) = tasks h @ [f]"
    and ctxt: "cause_txt = (case cause of None \<Rightarrow> ''UNKNOWN'' | Some t \<Rightarrow> t)"
  shows "(answer_time c = None \<longrightarrow>
          duration f = 0 \<and> status f = cause_txt
          \<and> (call_status f = 6) = (cause_txt \<noteq> ''ANSWERED''))
     \<and> (answer_time c = Some a \<longrightarrow>
          status f = ''ANSWERED'' \<and> call_status f = 4
          \<and> (a \<le> now \<and> now - a < 86400000000 \<longrightarrow> duration f = (now - a) div 1000000))
     \<and> (extract_phone c = Some p \<longrightarrow>
          (\<exists>x. tasks (on_hangup now (Hangup u cause) h) = tasks h @ [x])
          \<and> (\<exists>y. tasks (on_hangup_debug cfg now (Hangup u cause) h) = tasks h @ [y]))"
proof -
  from emitted on_hangup_fact [OF present] on_hangup_debug_fact [OF present]
  have f: "duration f = (case answer_time c of None \<Rightarrow> 0 | Some a \<Rightarrow> timedelta_seconds now a)
     \<and> status f = (case answer_time c of None \<Rightarrow> cause_txt | Some a \<Rightarrow> ''ANSWERED'')"
    unfolding ctxt by blast
  have e: "extract_phone c = Some p \<longrightarrow>
          (\<exists>x. tasks (on_hangup now (Hangup u cause) h) = tasks h @ [x])
          \<and> (\<exists>y. tasks (on_hangup_debug cfg now (Hangup u cause) h) = tasks h @ [y])"
    using on_hangup_emits [OF present, of p now cause]
          on_hangup_debug_emits [OF present, of p cfg now cause] by blast
  from f e show ?thesis
    by (cases "answer_time c") (auto simp: call_status_def timedelta_seconds_short)
qed

lemma bridged_call_present:
  "active_channels (run [ev_new, ev_bridge] initial_handler) ''1634567890.1'' = Some bridged_call"
  by code_simp

text \<open>The call of the example: answered at second 2, hung up at second 65.5.\<close>

theorem hangup_duration_status_witness:
  "active_channels (run [ev_new, ev_bridge] initial_handler) ''1634567890.1'' = Some bridged_call
   \<and> answer_time bridged_call = Some 2000000
   \<and> tasks (on_hangup 65500000 (Hangup ''1634567890.1'' (Some ''Normal Clearing''))
         (run [ev_new, ev_bridge] initial_handler))
       = tasks (run [ev_new, ev_bridge] initial_handler) @
         [\<lparr>phone = ''79161234567'', cd_direction = ''inbound'', duration = 63,
           status = ''ANSWERED'', uniqueid = ''1634567890.1'', timestamp = 0,
           internal_call = None\<rparr>]
   \<and> call_status \<lparr>phone = ''79161234567'', cd_direction = ''inbound'', duration = 63,
           status = ''ANSWERED'', uniqueid = ''1634567890.1'', timestamp = 0,
           internal_call = None\<rparr> = 4"
proof -
  let ?f = "\<lparr>phone = ''79161234567'', cd_direction = ''inbound'', duration = 63,
           status = ''ANSWERED'', uniqueid = ''1634567890.1'', timestamp = 0,
           internal_call = None\<rparr>"
  have a: "answer_time bridged_call = Some 2000000" by (simp add: bridged_call_def)
  have e: "tasks (on_hangup 65500000 (Hangup ''1634567890.1'' (Some ''Normal Clearing''))
         (run [ev_new, ev_bridge] initial_handler))
       = tasks (run [ev_new, ev_bridge] initial_handler) @ [?f]"
    by code_simp
  from hangup_duration_status [OF bridged_call_present disjI1 [OF e] refl, of 2000000] a
  have "call_status ?f = 4" by simp
  with bridged_call_present a e show ?thesis by blast
qed

text \<open>
  Against C4 as stated: a call that was never bridged and whose hangup carries the cause
  text \<^verbatim>\<open>ANSWERED\<close> is passed on with the status that is read as answered; and a call
  answered at second 2 and hung up 24 hours and 3 seconds later is passed on with a
  duration of 3 seconds, not 86403.
\<close>

theorem hangup_duration_status_counterexample:
  "map call_status
     (tasks (run [ev_new, (5000000, Hangup ''1634567890.1'' (Some ''ANSWERED''))]
        initial_handler)) = [4]
   \<and> map duration
     (tasks (run [ev_new, ev_bridge, (86405000000, Hangup ''1634567890.1'' None)]
        initial_handler)) = [3]
   \<and> (86405000000 - 2000000) div 1000000 = (86403 :: int)"
  by code_simp


subsection \<open>A second bridge\<close>

lemma on_bridge_enter_present:
  "active_channels h u = Some c \<Longrightarrow>
   on_bridge_enter now (BridgeEnter u) h =
     h\<lparr>active_channels :=
         (active_channels h)(u \<mapsto> c\<lparr>connected := True, answer_time := Some now\<rparr>)\<rparr>"
  by (simp add: on_bridge_enter_def)

text \<open>
  C8, as the code has it. A \<^verbatim>\<open>BridgeEnter\<close> for a session that is already bridged keeps
  every field of the session but \<^verbatim>\<open>answer_time\<close>, which it overwrites with the time of
  this event; it creates no task; and it leaves the state as it was exactly when the
  new time equals the one already stored.
\<close>

theorem bridge_enter_again:
  assumes present: "active_channels h u = Some c"
    and bridged: "connected c" "answer_time c = Some a"
  shows "on_bridge_enter now (BridgeEnter u) h =
           h\<lparr>active_channels := (active_channels h)(u \<mapsto> c\<lparr>answer_time := Some now\<rparr>)\<rparr>
       \<and> (on_bridge_enter now (BridgeEnter u) h = h) = (now = a)
       \<and> tasks (on_bridge_enter now (BridgeEnter u) h) = tasks h"
proof -
  from bridged
  have c: "c\<lparr>connected := True, answer_time := Some now\<rparr> = c\<lparr>answer_time := Some now\<rparr>"
    by simp
  have 1: "on_bridge_enter now (BridgeEnter u) h =
           h\<lparr>active_channels := (active_channels h)(u \<mapsto> c\<lparr>answer_time := Some now\<rparr>)\<rparr>"
    by (simp add: on_bridge_enter_present [OF present] c)
  have 2: "(on_bridge_enter now (BridgeEnter u) h = h) = (now = a)"
  proof
    assume "on_bridge_enter now (BridgeEnter u) h = h"
    with 1 have "active_channels
        (h\<lparr>active_channels := (active_channels h)(u \<mapsto> c\<lparr>answer_time := Some now\<rparr>)\<rparr>) u
       = active_channels h u" by simp
    with present have "c\<lparr>answer_time := Some now\<rparr> = c" by simp
    then have "answer_time (c\<lparr>answer_time := Some now\<rparr>) = answer_time c" by simp
    with bridged show "now = a" by simp
  next
    assume "now = a"
    with bridged have "c\<lparr>answer_time := Some now\<rparr> = c" by simp
    with 1 present show "on_bridge_enter now (BridgeEnter u) h = h"
      by (simp add: map_upd_triv)
  qed
  from 1 2 show ?thesis by simp
qed

theorem bridge_enter_again_witness:
  "active_channels (run [ev_new, ev_bridge] initial_handler) ''1634567890.1'' = Some bridged_call
   \<and> connected bridged_call \<and> answer_time bridged_call = Some 2000000
   \<and> on_bridge_enter 9000000 (BridgeEnter ''1634567890.1'') (run [ev_new, ev_bridge] initial_handler)
       \<noteq> run [ev_new, ev_bridge] initial_handler
   \<and> on_bridge_enter 2000000 (BridgeEnter ''1634567890.1'') (run [ev_new, ev_bridge] initial_handler)
       = run [ev_new, ev_bridge] initial_handler"
proof -
  have b: "connected bridged_call" "answer_time bridged_call = Some 2000000"
    by (simp_all add: bridged_call_def)
  have late: "on_bridge_enter 9000000 (BridgeEnter ''1634567890.1'')
        (run [ev_new, ev_bridge] initial_handler) \<noteq> run [ev_new, ev_bridge] initial_handler"
    using bridge_enter_again [OF bridged_call_present b, of 9000000, THEN conjunct2, THEN conjunct1]
    by simp
  have same: "on_bridge_enter 2000000 (BridgeEnter ''1634567890.1'')
        (run [ev_new, ev_bridge] initial_handler) = run [ev_new, ev_bridge] initial_handler"
    using bridge_enter_again [OF bridged_call_present b, of 2000000, THEN conjunct2, THEN conjunct1]
    by simp
  from late same bridged_call_present b show ?thesis by blast
qed

text \<open>
  Against C8 as stated: bridged at second 2, the session has that answer time; a second
  \<^verbatim>\<open>BridgeEnter\<close> at second 9 replaces it.
\<close>

theorem bridge_enter_again_counterexample:
  "map_option answer_time
     (active_channels (run [ev_new, ev_bridge] initial_handler) ''1634567890.1'')
     = Some (Some 2000000)
   \<and> map_option answer_time
     (active_channels
        (run [ev_new, ev_bridge, (9000000, BridgeEnter ''1634567890.1'')] initial_handler)
        ''1634567890.1'')
     = Some (Some 9000000)"
  by code_simp


section \<open>The recording locator\<close>

lemma fnmatch_nil: "fnmatch nm [] = (nm = [])"
  by (cases nm) simp_all

lemma fnmatch_star: "fnmatch nm (CHR ''*'' # ps) = (\<exists>pre rest. nm = pre @ rest \<and> fnmatch rest ps)"
proof (induction nm)
  case Nil
  then show ?case by simp
next
  case (Cons c cs)
  show ?case
  proof
    assume "fnmatch (c # cs) (CHR ''*'' # ps)"
    then consider "fnmatch (c # cs) ps" | "fnmatch cs (CHR ''*'' # ps)" by auto
    then show "\<exists>pre rest. c # cs = pre @ rest \<and> fnmatch rest ps"
    proof cases
      case 1
      then have "c # cs = [] @ (c # cs) \<and> fnmatch (c # cs) ps" by simp
      then show ?thesis by blast
    next
      case 2
      with Cons.IH obtain pre rest where "cs = pre @ rest" "fnmatch rest ps" by blast
      then have "c # cs = (c # pre) @ rest \<and> fnmatch rest ps" by simp
      then show ?thesis by blast
    qed
  next
    assume "\<exists>pre rest. c # cs = pre @ rest \<and> fnmatch rest ps"
    then obtain pre rest where pr: "c # cs = pre @ rest" "fnmatch rest ps" by blast
    show "fnmatch (c # cs) (CHR ''*'' # ps)"
    proof (cases pre)
      case Nil
      with pr have "fnmatch (c # cs) ps" by simp
      then show ?thesis by simp
    next
      case (Cons d pre')
      with pr have "cs = pre' @ rest" by simp
      with pr(2) Cons.IH have "fnmatch cs (CHR ''*'' # ps)" by blast
      then show ?thesis by simp
    qed
  qed
qed

lemma fnmatch_lit:
  "CHR ''*'' \<notin> set lit \<Longrightarrow> fnmatch nm (lit @ ps) = (\<exists>rest. nm = lit @ rest \<and> fnmatch rest ps)"
proof (induction lit arbitrary: nm)
  case Nil
  then show ?case by simp
next
  case (Cons l lit)
  then have l: "l \<noteq> CHR ''*''" and lit: "CHR ''*'' \<notin> set lit" by auto
  show ?case
  proof (cases nm)
    case Nil
    with l show ?thesis by simp
  next
    case (Cons c cs)
    with l Cons.IH [OF lit, of cs] show ?thesis by auto
  qed
qed

lemma plain_id_star: "plain_id uid \<Longrightarrow> CHR ''*'' \<notin> set uid"
  by (auto simp: plain_id_def list_all_iff)

lemma fnmatch_pattern:
  assumes "plain_id uid" "CHR ''*'' \<notin> set ext"
  shows "fnmatch nm (''*'' @ uid @ ''*'' @ ext) = (\<exists>pre mid. nm = pre @ uid @ mid @ ext)"
proof -
  have "fnmatch nm (''*'' @ uid @ ''*'' @ ext)
        = (\<exists>pre rest. nm = pre @ rest \<and> fnmatch rest (uid @ CHR ''*'' # ext))"
    using fnmatch_star [of nm "uid @ CHR ''*'' # ext"] by simp
  also have "\<dots> = (\<exists>pre rest. nm = pre @ uid @ rest \<and> fnmatch rest (CHR ''*'' # ext))"
    using fnmatch_lit [OF plain_id_star [OF assms(1)], of _ "CHR ''*'' # ext"] by auto
  also have "\<dots> = (\<exists>pre mid rest. nm = pre @ uid @ mid @ rest \<and> fnmatch rest ext)"
    using fnmatch_star [of _ ext] by auto
  also have "\<dots> = (\<exists>pre mid. nm = pre @ uid @ mid @ ext)"
    using fnmatch_lit [OF assms(2), of _ "[]"] by (auto simp: fnmatch_nil)
  finally show ?thesis .
qed

lemma max_from_newest:
  assumes "list_all (\<lambda>f. mtime f \<noteq> None) fs" "mtime best = Some k"
  shows "\<exists>r t. max_from best k fs = Inr r \<and> r \<in> set (best # fs) \<and> mtime r = Some t \<and> k \<le> t
           \<and> list_all (\<lambda>g. case mtime g of None \<Rightarrow> False | Some s \<Rightarrow> s \<le> t) fs"
  using assms
proof (induction fs arbitrary: best k)
  case Nil
  then show ?case by simp
next
  case (Cons f fs)
  from Cons.prems obtain t where t: "mtime f = Some t" by auto
  from Cons.prems have rest: "list_all (\<lambda>f. mtime f \<noteq> None) fs" by simp
  show ?case
  proof (cases "k < t")
    case True
    from Cons.IH [OF rest t] obtain r tr where
      "max_from f t fs = Inr r" "r \<in> set (f # fs)" "mtime r = Some tr" "t \<le> tr"
      "list_all (\<lambda>g. case mtime g of None \<Rightarrow> False | Some s \<Rightarrow> s \<le> tr) fs" by blast
    with True t show ?thesis by auto
  next
    case False
    from Cons.IH [OF rest Cons.prems(2)] obtain r tr where
      "max_from best k fs = Inr r" "r \<in> set (best # fs)" "mtime r = Some tr" "k \<le> tr"
      "list_all (\<lambda>g. case mtime g of None \<Rightarrow> False | Some s \<Rightarrow> s \<le> tr) fs" by blast
    with False t show ?thesis by auto
  qed
qed

lemma max_getmtime_newest:
  assumes "list_all (\<lambda>f. mtime f \<noteq> None) fs" "fs \<noteq> []"
  shows "\<exists>r. max_getmtime fs = Inr r \<and> newest_of fs r"
proof -
  from assms obtain f rest where fs: "fs = f # rest" by (cases fs) auto
  with assms obtain k where k: "mtime f = Some k" by auto
  from assms fs have "list_all (\<lambda>f. mtime f \<noteq> None) rest" by simp
  from max_from_newest [OF this k] obtain r t where
    "max_from f k rest = Inr r" "r \<in> set (f # rest)" "mtime r = Some t" "k \<le> t"
    "list_all (\<lambda>g. case mtime g of None \<Rightarrow> False | Some s \<Rightarrow> s \<le> t) rest" by blast
  with fs k show ?thesis by (auto simp: max_getmtime_def newest_of_def)
qed

lemma glob_stat:
  "list_all (\<lambda>f. mtime f \<noteq> None) files \<Longrightarrow>
   list_all (\<lambda>f. mtime f \<noteq> None) (glob pat files)"
  by (auto simp: glob_def list_all_iff)

lemma first_pattern_step:
  assumes "list_all (\<lambda>f. mtime f \<noteq> None) files"
  shows "first_pattern (pat # pats) files =
     (if glob pat files = [] then first_pattern pats files
      else Inr (Some (path (projr (max_getmtime (glob pat files))))))
     \<and> (glob pat files \<noteq> [] \<longrightarrow> newest_of (glob pat files) (projr (max_getmtime (glob pat files))))"
proof (cases "glob pat files = []")
  case True
  then show ?thesis by simp
next
  case False
  from max_getmtime_newest [OF glob_stat [OF assms] False]
  obtain r where "max_getmtime (glob pat files) = Inr r" "newest_of (glob pat files) r" by blast
  with False show ?thesis by (simp add: Let_def)
qed

lemma candidates_member:
  assumes "plain_id uid" "CHR ''*'' \<notin> set ext"
  shows "(f \<in> set (candidates ext files uid)) =
           (f \<in> set files \<and> \<not> ishidden (name f) \<and> list_all (\<lambda>d. \<not> ishidden d) (dirs f)
            \<and> (\<exists>pre mid. name f = pre @ uid @ mid @ ''.'' @ ext))"
proof -
  have star: "CHR ''*'' \<notin> set (''.'' @ ext)" using assms(2) by simp
  have "''*'' @ uid @ ''*.'' @ ext = ''*'' @ uid @ ''*'' @ (''.'' @ ext)" by simp
  then show ?thesis
    using fnmatch_pattern [OF assms(1) star, of "name f"]
    by (simp only: candidates_def glob_def set_filter mem_Collect_eq)
qed

lemma find_recording_unfold:
  assumes stat: "list_all (\<lambda>f. mtime f \<noteq> None) files"
    and W: "W = candidates ''wav'' files uid" and U: "U = candidates ''WAV'' files uid"
    and M: "M = candidates ''mp3'' files uid"
  shows "find_recording files uid =
     (if W \<noteq> [] then Inr (Some (path (projr (max_getmtime W))))
      else if U \<noteq> [] then Inr (Some (path (projr (max_getmtime U))))
      else if M \<noteq> [] then Inr (Some (path (projr (max_getmtime M))))
      else Inr None)"
  using first_pattern_step [OF stat, of "''*'' @ uid @ ''*.wav''"
          "[''*'' @ uid @ ''*.WAV'', ''*'' @ uid @ ''*.mp3'']"]
        first_pattern_step [OF stat, of "''*'' @ uid @ ''*.WAV''" "[''*'' @ uid @ ''*.mp3'']"]
        first_pattern_step [OF stat, of "''*'' @ uid @ ''*.mp3''" "[]"]
  by (simp add: find_recording_def patterns_def candidates_def W U M)

lemma newest_of_candidates:
  assumes stat: "list_all (\<lambda>f. mtime f \<noteq> None) files" and "candidates ext files uid \<noteq> []"
  shows "newest_of (candidates ext files uid) (projr (max_getmtime (candidates ext files uid)))"
  using first_pattern_step [OF stat, of "''*'' @ uid @ ''*.'' @ ext" "[]"] assms(2)
  by (simp add: candidates_def)

text \<open>
  C9, as the code has it. For an identifier without \<^verbatim>\<open>glob\<close> syntax and files that can
  all be stat-ed: the files considered for an extension are those not hidden (neither
  the name nor a directory above it starts with a dot) whose name is something, the
  identifier, something, a dot and that extension, spelled exactly \<^verbatim>\<open>wav\<close>, \<^verbatim>\<open>WAV\<close> or
  \<^verbatim>\<open>mp3\<close>. The extensions are tried in that order, and the first with any file decides:
  the result is the path of a most recently modified file among the files of that
  extension. The search never fails, and finds nothing exactly when no extension has a
  file.
\<close>

theorem find_recording_priority:
  assumes plain: "plain_id uid" and stat: "list_all (\<lambda>f. mtime f \<noteq> None) files"
    and W: "W = candidates ''wav'' files uid" and U: "U = candidates ''WAV'' files uid"
    and M: "M = candidates ''mp3'' files uid"
    and ext: "ext = ''wav'' \<or> ext = ''WAV'' \<or> ext = ''mp3''"
  shows "((f \<in> set (candidates ext files uid)) =
           (f \<in> set files \<and> \<not> ishidden (name f) \<and> list_all (\<lambda>d. \<not> ishidden d) (dirs f)
            \<and> (\<exists>pre mid. name f = pre @ uid @ mid @ ''.'' @ ext)))
     \<and> ((find_recording files uid = Inr None) = (W = [] \<and> U = [] \<and> M = []))
     \<and> find_recording files uid \<noteq> Inl e
     \<and> (find_recording files uid = Inr (Some r) \<longrightarrow>
           (\<exists>g. r = path g \<and>
              (newest_of W g \<or> (W = [] \<and> newest_of U g)
               \<or> (W = [] \<and> U = [] \<and> newest_of M g))))"
proof -
  from ext have "CHR ''*'' \<notin> set ext" by auto
  from candidates_member [OF plain this]
  have 1: "(f \<in> set (candidates ext files uid)) =
           (f \<in> set files \<and> \<not> ishidden (name f) \<and> list_all (\<lambda>d. \<not> ishidden d) (dirs f)
            \<and> (\<exists>pre mid. name f = pre @ uid @ mid @ ''.'' @ ext))" .
  note unf = find_recording_unfold [OF stat W U M]
  have 2: "(find_recording files uid = Inr None) = (W = [] \<and> U = [] \<and> M = [])"
    by (simp add: unf)
  have 3: "find_recording files uid \<noteq> Inl e"
    by (simp add: unf)
  have 4: "find_recording files uid = Inr (Some r) \<longrightarrow>
           (\<exists>g. r = path g \<and>
              (newest_of W g \<or> (W = [] \<and> newest_of U g)
               \<or> (W = [] \<and> U = [] \<and> newest_of M g)))"
    using newest_of_candidates [OF stat, of "''wav''" uid]
          newest_of_candidates [OF stat, of "''WAV''" uid]
          newest_of_candidates [OF stat, of "''mp3''" uid]
    unfolding unf W U M by (auto split: if_splits)
  from 1 2 3 4 show ?thesis by blast
qed

text \<open>A \<^verbatim>\<open>.wav\<close>, a later \<^verbatim>\<open>.mp3\<close> and a still later \<^verbatim>\<open>.Wav\<close> of one call: the \<^verbatim>\<open>.wav\<close> is
  the only file considered first, and it is found.\<close>

theorem find_recording_priority_witness:
  "plain_id ''1634567890.1''
   \<and> list_all (\<lambda>f. mtime f \<noteq> None) [rec_mp3, rec_wav, rec_Wav]
   \<and> candidates ''wav'' [rec_mp3, rec_wav, rec_Wav] ''1634567890.1'' = [rec_wav]
   \<and> find_recording [rec_mp3, rec_wav, rec_Wav] ''1634567890.1'' \<noteq> Inr None
   \<and> find_recording [rec_mp3, rec_wav, rec_Wav] ''1634567890.1'' \<noteq> Inl OSError"
proof -
  have p: "plain_id ''1634567890.1''" by code_simp
  have s: "list_all (\<lambda>f. mtime f \<noteq> None) [rec_mp3, rec_wav, rec_Wav]" by code_simp
  have w: "candidates ''wav'' [rec_mp3, rec_wav, rec_Wav] ''1634567890.1'' = [rec_wav]"
    by code_simp
  from find_recording_priority [OF p s refl refl refl, of "''wav''" rec_wav OSError "[]"] w
  have "find_recording [rec_mp3, rec_wav, rec_Wav] ''1634567890.1'' \<noteq> Inr None
        \<and> find_recording [rec_mp3, rec_wav, rec_Wav] ''1634567890.1'' \<noteq> Inl OSError"
    by simp
  with p s w show ?thesis by blast
qed

text \<open>
  Against C9 as stated: with a \<^verbatim>\<open>.wav\<close> modified at 100 and an \<^verbatim>\<open>.mp3\<close> modified at 200
  for the same call, the \<^verbatim>\<open>.wav\<close> is returned; and a recording whose extension is
  spelled \<^verbatim>\<open>.Wav\<close> is not found at all.
\<close>

theorem find_recording_priority_counterexample:
  "find_recording [rec_mp3, rec_wav] ''1634567890.1''
     = Inr (Some ''/var/spool/asterisk/monitor/2021/10/18/in-1634567890.1.wav'')
   \<and> mtime rec_wav = Some 100 \<and> mtime rec_mp3 = Some 200
   \<and> find_recording [rec_Wav] ''1634567890.1'' = Inr None"
  by code_simp


section \<open>Token refresh\<close>

lemma http_sent: "sent (snd (http rq w)) = sent w @ [rq]"
  by (simp add: http_def Let_def split: list.splits net_result.splits)

lemma http_keeps:
  "token_file (snd (http rq w)) = token_file w"
  "access_token (snd (http rq w)) = access_token w"
  "refresh_token (snd (http rq w)) = refresh_token w"
  "disk (snd (http rq w)) = disk w"
  "clock (snd (http rq w)) = clock w"
  "base_url (snd (http rq w)) = base_url w"
  by (simp_all add: http_def Let_def split: list.splits net_result.splits)

lemma http_result:
  "fst (http rq w) =
     (case net w of [] \<Rightarrow> Inl ClientError | Failure # rest \<Rightarrow> Inl ClientError
      | Response st body # rest \<Rightarrow> Inr (st, body))"
  by (simp add: http_def Let_def split: list.splits net_result.splits)

lemma refresh_receive_sent: "sent (snd (refresh_receive resp w)) = sent w"
  by (simp add: refresh_receive_def save_tokens_def Let_def split: option.splits sum.splits)

lemma refresh_tokens_sent: "sent (snd (refresh_tokens w)) = sent w @ [refresh_request w]"
proof (cases "http (refresh_request w) w")
  case (Pair r w1)
  with http_sent [of "refresh_request w" w] have s: "sent w1 = sent w @ [refresh_request w]"
    by simp
  from Pair s show ?thesis
    by (cases r) (simp_all add: refresh_tokens_def refresh_receive_sent)
qed

lemma refresh_receive_ok:
  "(fst (refresh_receive (st, body) w) = Inr ()) =
     (\<exists>kvs a r. body = Some (JObj kvs) \<and> map_of kvs ''access_token'' = Some a
        \<and> map_of kvs ''refresh_token'' = Some r \<and> disk w = No_fault)"
proof (cases body)
  case None
  then show ?thesis by (simp add: refresh_receive_def)
next
  case (Some result)
  show ?thesis
  proof (cases result)
    case (JObj kvs)
    with Some show ?thesis
      by (cases "disk w")
         (auto simp: refresh_receive_def save_tokens_def Let_def split: option.splits)
  qed (simp_all add: Some refresh_receive_def)
qed

lemma refresh_receive_success:
  assumes "body = Some (JObj kvs)" "map_of kvs ''access_token'' = Some a"
    "map_of kvs ''refresh_token'' = Some r" "disk w = No_fault"
  shows "refresh_receive (st, body) w =
     (Inr (), w\<lparr>access_token := a, refresh_token := r, token_file := Saved a r (clock w), token_file_mode := 384\<rparr>)"
  using assms by (simp add: refresh_receive_def save_tokens_def Let_def)

text \<open>
  C6, as the code has it. \<^verbatim>\<open>refresh_tokens\<close> always makes exactly one request to the token
  endpoint, whatever the stored refresh token is (an absent one is sent as \<^verbatim>\<open>null\<close>). It
  returns normally exactly when a response arrives whose body is a JSON object with the
  keys \<^verbatim>\<open>access_token\<close> and \<^verbatim>\<open>refresh_token\<close>, whatever the status of the response, and
  the token file is written without a fault; in every other case it raises. When it
  returns, both tokens are the ones received and the token file holds exactly this pair,
  with the bits \<^verbatim>\<open>0o600\<close>.
\<close>

theorem refresh_tokens_exchange:
  assumes run: "refresh_tokens w = (res, w')"
  shows "sent w' = sent w @ [refresh_request w]
     \<and> ((res = Inr ()) =
          (\<exists>st kvs a r rest. net w = Response st (Some (JObj kvs)) # rest
             \<and> map_of kvs ''access_token'' = Some a \<and> map_of kvs ''refresh_token'' = Some r
             \<and> disk w = No_fault))
     \<and> (net w = Response st (Some (JObj kvs)) # rest
          \<and> map_of kvs ''access_token'' = Some a \<and> map_of kvs ''refresh_token'' = Some r
          \<and> disk w = No_fault \<longrightarrow>
        res = Inr () \<and> access_token w' = a \<and> refresh_token w' = r
          \<and> token_file w' = Saved a r (clock w) \<and> token_file_mode w' = 384)"
proof -
  from run refresh_tokens_sent [of w] have 1: "sent w' = sent w @ [refresh_request w]" by simp
  obtain r0 w1 where h: "http (refresh_request w) w = (r0, w1)" by (cases "http (refresh_request w) w")
  from h http_keeps [of "refresh_request w" w]
  have keep: "token_file w1 = token_file w" "refresh_token w1 = refresh_token w"
    "disk w1 = disk w" "clock w1 = clock w" by simp_all
  from h http_result [of "refresh_request w" w]
  have r0: "r0 = (case net w of [] \<Rightarrow> Inl ClientError | Failure # rest \<Rightarrow> Inl ClientError
      | Response st body # rest \<Rightarrow> Inr (st, body))" by simp
  show ?thesis
  proof (cases r0)
    case (Inl e)
    with h run have res: "res = Inl e" "w' = w1" by (simp_all add: refresh_tokens_def)
    from Inl r0 have "\<nexists>st body rest. net w = Response st body # rest"
      by (auto split: list.splits net_result.splits)
    with 1 res keep show ?thesis by auto
  next
    case (Inr resp)
    obtain st0 body0 where resp: "resp = (st0, body0)" by (cases resp)
    with Inr h run have rr: "refresh_receive (st0, body0) w1 = (res, w')"
      by (simp add: refresh_tokens_def)
    from Inr r0 resp obtain rest0 where net: "net w = Response st0 body0 # rest0"
      by (auto split: list.splits net_result.splits)
    from rr refresh_receive_ok [of st0 body0 w1] keep net
    have 2: "(res = Inr ()) =
          (\<exists>st kvs a r rest. net w = Response st (Some (JObj kvs)) # rest
             \<and> map_of kvs ''access_token'' = Some a \<and> map_of kvs ''refresh_token'' = Some r
             \<and> disk w = No_fault)" by auto
    have 3: "net w = Response st (Some (JObj kvs)) # rest
          \<and> map_of kvs ''access_token'' = Some a \<and> map_of kvs ''refresh_token'' = Some r
          \<and> disk w = No_fault \<longrightarrow>
        res = Inr () \<and> access_token w' = a \<and> refresh_token w' = r
          \<and> token_file w' = Saved a r (clock w) \<and> token_file_mode w' = 384"
    proof
      assume a: "net w = Response st (Some (JObj kvs)) # rest
          \<and> map_of kvs ''access_token'' = Some a \<and> map_of kvs ''refresh_token'' = Some r
          \<and> disk w = No_fault"
      with net have b: "body0 = Some (JObj kvs)" by simp
      from a keep have "disk w1 = No_fault" by simp
      from refresh_receive_success [OF b _ _ this, of a r st0] a rr keep
      show "res = Inr () \<and> access_token w' = a \<and> refresh_token w' = r
          \<and> token_file w' = Saved a r (clock w) \<and> token_file_mode w' = 384" by auto
    qed
    from 1 2 3 show ?thesis by blast
  qed
qed

theorem refresh_tokens_exchange_witness:
  "net (crm0\<lparr>net := [Response 200 (Some new_tokens)]\<rparr>)
     = [Response 200 (Some new_tokens)]
   \<and> fst (refresh_tokens (crm0\<lparr>net := [Response 200 (Some new_tokens)]\<rparr>)) = Inr ()
   \<and> access_token (snd (refresh_tokens (crm0\<lparr>net := [Response 200 (Some new_tokens)]\<rparr>)))
       = JStr ''access-2''
   \<and> refresh_token (snd (refresh_tokens (crm0\<lparr>net := [Response 200 (Some new_tokens)]\<rparr>)))
       = JStr ''refresh-2''
   \<and> token_file (snd (refresh_tokens (crm0\<lparr>net := [Response 200 (Some new_tokens)]\<rparr>)))
       = Saved (JStr ''access-2'') (JStr ''refresh-2'') 3600000000"
proof -
  let ?w = "crm0\<lparr>net := [Response 200 (Some new_tokens)]\<rparr>"
  have n: "net ?w = Response 200 (Some (JObj [(''token_type'', JStr ''Bearer''),
      (''expires_in'', JNum 86400), (''access_token'', JStr ''access-2''),
      (''refresh_token'', JStr ''refresh-2'')])) # []"
    by (simp add: new_tokens_def)
  have a: "map_of [(''token_type'', JStr ''Bearer''),
      (''expires_in'', JNum 86400), (''access_token'', JStr ''access-2''),
      (''refresh_token'', JStr ''refresh-2'')] ''access_token'' = Some (JStr ''access-2'')"
    by simp
  have r: "map_of [(''token_type'', JStr ''Bearer''),
      (''expires_in'', JNum 86400), (''access_token'', JStr ''access-2''),
      (''refresh_token'', JStr ''refresh-2'')] ''refresh_token'' = Some (JStr ''refresh-2'')"
    by simp
  have f: "disk ?w = No_fault" "clock ?w = 3600000000" by (simp_all add: crm0_def)
  from refresh_tokens_exchange [OF prod.collapse [symmetric], of ?w 200
      "[(''token_type'', JStr ''Bearer''),
      (''expires_in'', JNum 86400), (''access_token'', JStr ''access-2''),
      (''refresh_token'', JStr ''refresh-2'')]" "[]" "JStr ''access-2''" "JStr ''refresh-2''",
      THEN conjunct2, THEN conjunct2] n a r f
  show ?thesis by simp
qed

text \<open>
  Against C6 as stated: with no refresh token stored the request is made all the same,
  with \<^verbatim>\<open>null\<close> for the token, and the failure is the \<^verbatim>\<open>KeyError\<close> of reading the
  server's error body.
\<close>

theorem refresh_tokens_exchange_counterexample:
  "sent (snd (refresh_tokens
      (crm0\<lparr>refresh_token := JNull,
            net := [Response 400 (Some (JObj [(''title'', JStr ''Bad Request'')]))]\<rparr>)))
     = [\<lparr>rq_method = ''POST'',
         rq_url = [Lit ''https://example.amocrm.ru/oauth2/access_token''],
         rq_bearer = None,
         rq_json = Some (JObj
           [(''client_id'', JStr ''client''), (''client_secret'', JStr ''secret''),
            (''grant_type'', JStr ''refresh_token''), (''refresh_token'', JNull),
            (''redirect_uri'', JStr ''https://example.org/oauth'')]),
         rq_file = None\<rparr>]
   \<and> fst (refresh_tokens
      (crm0\<lparr>refresh_token := JNull,
            net := [Response 400 (Some (JObj [(''title'', JStr ''Bad Request'')]))]\<rparr>))
     = Inl (KeyError ''access_token'')"
  by code_simp


section \<open>Requests to the CRM\<close>

lemma api_request_once:
  "api_request meth endpoint data False w =
     (case http (api_http_request meth endpoint data w) w of
        (Inl e, w1) \<Rightarrow> (Inl e, w1)
      | (Inr (st, body), w1) \<Rightarrow>
          if st \<ge> 400 then (Inr JNull, w1)
          else (case body of None \<Rightarrow> (Inl ContentTypeError, w1) | Some j \<Rightarrow> (Inr j, w1)))"
  by (subst api_request.simps) (simp split: prod.splits sum.splits)

lemma api_request_once_sent:
  "sent (snd (api_request meth endpoint data False w))
     = sent w @ [api_http_request meth endpoint data w]"
proof (cases "http (api_http_request meth endpoint data w) w")
  case (Pair r w1)
  with http_sent [of "api_http_request meth endpoint data w" w]
  have "sent w1 = sent w @ [api_http_request meth endpoint data w]" by simp
  with Pair show ?thesis
    by (cases r) (auto simp: api_request_once split: option.splits)
qed

lemma api_request_once_error:
  "net w = Response st b # rest \<Longrightarrow> st \<ge> 400 \<Longrightarrow>
   api_request meth endpoint data False w =
     (Inr JNull, snd (http (api_http_request meth endpoint data w) w))"
  by (simp add: api_request_once http_def Let_def)

lemma api_request_not_401:
  "\<not> (\<exists>b rest. net w = Response 401 b # rest) \<Longrightarrow>
   api_request meth endpoint data True w = api_request meth endpoint data False w"
  by (subst api_request.simps, subst (2) api_request.simps)
     (auto simp: http_def Let_def split: list.splits net_result.splits)

lemma api_request_401:
  assumes "net w = Response 401 b # rest"
  shows "api_request meth endpoint data True w =
     (case refresh_tokens (snd (http (api_http_request meth endpoint data w) w)) of
        (Inl e, w2) \<Rightarrow> (Inl e, w2)
      | (Inr u, w2) \<Rightarrow> api_request meth endpoint data False w2)"
  using assms by (subst api_request.simps) (simp add: http_def Let_def)

lemma refresh_tokens_base_url: "base_url (snd (refresh_tokens w)) = base_url w"
  by (auto simp: refresh_tokens_def refresh_receive_def save_tokens_def http_def Let_def
      split: list.splits net_result.splits option.splits sum.splits prod.splits)

text \<open>
  C5, as the code has it. A call of \<^verbatim>\<open>api_request\<close> sends its request once; only if the
  answer is a response with status 401 does it run \<^verbatim>\<open>refresh_tokens\<close>, once; and only if
  that succeeds does it send the request a second time, the same but for the new access
  token. So at most two attempts and one refresh are made. If the refresh raises, the
  exception is the outcome. A second 401 is not retried and is not raised: like every
  other status from 400 on it makes the call return \<^verbatim>\<open>None\<close>.
\<close>

theorem api_request_attempts:
  assumes run: "api_request meth endpoint data True w = (res, w')"
    and rq0: "rq0 = api_http_request meth endpoint data w" and w1: "w1 = snd (http rq0 w)"
    and w2: "w2 = snd (refresh_tokens w1)"
    and rq2: "rq2 = api_http_request meth endpoint data w2"
  shows "sent w' = sent w @
           (if \<exists>b rest. net w = Response 401 b # rest
            then if fst (refresh_tokens w1) = Inr () then [rq0, refresh_request w1, rq2]
                 else [rq0, refresh_request w1]
            else [rq0])
     \<and> rq2 = rq0\<lparr>rq_bearer := Some (access_token w2)\<rparr>
     \<and> ((\<exists>b rest. net w = Response 401 b # rest) \<and> fst (refresh_tokens w1) \<noteq> Inr ()
          \<longrightarrow> res = map_sum id (\<lambda>u. JNull) (fst (refresh_tokens w1)) \<and> (\<exists>e. res = Inl e))
     \<and> ((\<exists>b rest. net w = Response 401 b # rest) \<and> fst (refresh_tokens w1) = Inr ()
          \<and> (\<exists>st b rest. net w2 = Response st b # rest \<and> st \<ge> 400)
          \<longrightarrow> res = Inr JNull)
     \<and> (\<not> (\<exists>b rest. net w = Response 401 b # rest)
          \<and> (\<exists>st b rest. net w = Response st b # rest \<and> st \<ge> 400)
          \<longrightarrow> res = Inr JNull)"
proof -
  have base: "base_url w2 = base_url w"
    by (simp add: w2 w1 refresh_tokens_base_url http_keeps)
  have 2: "rq2 = rq0\<lparr>rq_bearer := Some (access_token w2)\<rparr>"
    by (simp add: rq2 rq0 api_http_request_def base)
  have w1sent: "sent w1 = sent w @ [rq0]" by (simp add: w1 http_sent)
  have w2sent: "sent w2 = sent w @ [rq0, refresh_request w1]"
    by (simp add: w2 refresh_tokens_sent w1sent)
  show ?thesis
  proof (cases "\<exists>b rest. net w = Response 401 b # rest")
    case False
    from api_request_not_401 [OF False] run
    have once: "api_request meth endpoint data False w = (res, w')" by simp
    from once api_request_once_sent [of meth endpoint "data" w]
    have s: "sent w' = sent w @ [rq0]" by (simp add: rq0)
    have "(\<exists>st b rest. net w = Response st b # rest \<and> st \<ge> 400) \<longrightarrow> res = Inr JNull"
      using once api_request_once_error [of w _ _ _ meth endpoint "data"] by auto
    with False s 2 show ?thesis by simp
  next
    case True
    then obtain b rest where n: "net w = Response 401 b # rest" by blast
    note unf = api_request_401 [OF n, of meth endpoint "data", folded rq0, folded w1]
    obtain r2 w2' where rt: "refresh_tokens w1 = (r2, w2')" by (cases "refresh_tokens w1")
    with w2 have w2': "w2' = w2" by simp
    show ?thesis
    proof (cases r2)
      case (Inl e)
      with unf rt run have "res = Inl e" "w' = w2" by (simp_all add: w2')
      with True rt Inl w2sent 2 show ?thesis by simp
    next
      case (Inr u)
      with unf rt run w2' have retry: "api_request meth endpoint data False w2 = (res, w')"
        by simp
      from retry api_request_once_sent [of meth endpoint "data" w2]
      have s: "sent w' = sent w @ [rq0, refresh_request w1, rq2]"
        by (simp add: w2sent rq2)
      have e: "(\<exists>st b rest. net w2 = Response st b # rest \<and> st \<ge> 400) \<longrightarrow> res = Inr JNull"
        using retry api_request_once_error [of w2 _ _ _ meth endpoint "data"] by auto
      from True rt Inr s e 2 show ?thesis by simp
    qed
  qed
qed

theorem api_request_attempts_witness:
  "net crm_401_twice = [unauthorized, Response 200 (Some new_tokens), unauthorized]
   \<and> fst (api_request ''GET'' lookup_endpoint None True crm_401_twice) = Inr JNull
   \<and> map rq_bearer (sent (snd (api_request ''GET'' lookup_endpoint None True crm_401_twice)))
       = [Some (JStr ''access-1''), None, Some (JStr ''access-2'')]"
proof -
  let ?w1 = "snd (http (api_http_request ''GET'' lookup_endpoint None crm_401_twice) crm_401_twice)"
  let ?w2 = "snd (refresh_tokens ?w1)"
  have n0: "net crm_401_twice = [unauthorized, Response 200 (Some new_tokens), unauthorized]"
    by (simp add: crm_401_twice_def)
  then have n: "\<exists>b rest. net crm_401_twice = Response 401 b # rest"
    by (simp add: unauthorized_def)
  have rf: "fst (refresh_tokens ?w1) = Inr ()" by code_simp
  have "net ?w2 = [unauthorized]" by code_simp
  then have n2: "\<exists>st b rest. net ?w2 = Response st b # rest \<and> st \<ge> 400"
    by (simp add: unauthorized_def)
  have tok: "access_token crm_401_twice = JStr ''access-1''" "access_token ?w2 = JStr ''access-2''"
    "sent crm_401_twice = []"
    by code_simp+
  from api_request_attempts [OF prod.collapse [symmetric] refl refl refl refl,
      of "''GET''" lookup_endpoint None crm_401_twice] n rf n2
  have "sent (snd (api_request ''GET'' lookup_endpoint None True crm_401_twice))
          = sent crm_401_twice @
            [api_http_request ''GET'' lookup_endpoint None crm_401_twice, refresh_request ?w1,
             api_http_request ''GET'' lookup_endpoint None ?w2]
        \<and> fst (api_request ''GET'' lookup_endpoint None True crm_401_twice) = Inr JNull"
    by simp
  with tok n0 show ?thesis
    by (simp add: api_http_request_def refresh_request_def)
qed

text \<open>
  Against C5 as stated: with 401 before and after a successful refresh the call returns
  \<^verbatim>\<open>None\<close>, which is also what it returns for a single 500; no error is raised.
\<close>

theorem api_request_attempts_counterexample:
  "fst (api_request ''GET'' lookup_endpoint None True crm_401_twice) = Inr JNull
   \<and> fst (api_request ''GET'' lookup_endpoint None True (crm0\<lparr>net := [Response 500 None]\<rparr>))
       = Inr JNull"
  by code_simp


section \<open>Processing a call\<close>

lemma find_contact_none:
  "lookup_request cd w = (Inr JNull, w1) \<Longrightarrow>
   find_contact (phone cd) w = (Inr JNull, w1) \<and> find_contact_debug (phone cd) w = (Inr JNull, w1)"
  by (simp add: find_contact_def find_contact_debug_def lookup_request_def)

lemma find_contact_empty:
  "lookup_request cd w = (Inr no_contacts, w1) \<Longrightarrow>
   find_contact (phone cd) w = (Inr JNull, w1) \<and> find_contact_debug (phone cd) w = (Inr JNull, w1)"
  by (simp add: find_contact_def find_contact_debug_def lookup_request_def no_contacts_def)

lemma find_contact_raises:
  "lookup_request cd w = (Inl e, w1) \<Longrightarrow>
   find_contact (phone cd) w = (Inl e, w1) \<and> find_contact_debug (phone cd) w = (Inl e, w1)"
  by (simp add: find_contact_def find_contact_debug_def lookup_request_def)

lemma process_call_with_none:
  "find_fn (phone cd) w = (Inr JNull, w1) \<Longrightarrow>
   process_call_with find_fn ntype cd w = unsorted_only cd w1"
  by (simp add: process_call_with_def unsorted_only_def)

lemma process_call_with_raises:
  "find_fn (phone cd) w = (Inl e, w1) \<Longrightarrow>
   process_call_with find_fn ntype cd w = (Inl e, w1)"
  by (simp add: process_call_with_def)

lemma process_call_none:
  assumes "lookup_request cd w = (Inr JNull, w1)"
  shows "process_call cd w = unsorted_only cd w1 \<and> process_call_debug cd w = unsorted_only cd w1"
  using find_contact_none [OF assms]
  by (simp add: process_call_def process_call_debug_def process_call_with_none)

lemma process_call_empty:
  assumes "lookup_request cd w = (Inr no_contacts, w1)"
  shows "process_call cd w = unsorted_only cd w1 \<and> process_call_debug cd w = unsorted_only cd w1"
  using find_contact_empty [OF assms]
  by (simp add: process_call_def process_call_debug_def process_call_with_none)

lemma process_call_raises:
  assumes "lookup_request cd w = (Inl e, w1)"
  shows "process_call cd w = (Inl e, w1) \<and> process_call_debug cd w = (Inl e, w1)"
  using find_contact_raises [OF assms]
  by (simp add: process_call_def process_call_debug_def process_call_with_raises)

lemma api_request_no_response:
  assumes "net v = [] \<or> (\<exists>rest. net v = Failure # rest)"
  shows "api_request meth endpoint data True v =
           (Inl ClientError, snd (http (api_http_request meth endpoint data v) v))"
  using assms
  by (subst api_request.simps) (auto simp: http_def Let_def)

lemma api_request_refresh_raises:
  assumes first: "net v = Response 401 b0 # tail"
    and raised: "fst (refresh_tokens (snd (http (api_http_request meth endpoint data v) v))) = Inl e"
  shows "api_request meth endpoint data True v =
           (Inl e, snd (refresh_tokens (snd (http (api_http_request meth endpoint data v) v))))"
proof -
  obtain r2 w2 where rt: "refresh_tokens (snd (http (api_http_request meth endpoint data v) v))
      = (r2, w2)"
    by (cases "refresh_tokens (snd (http (api_http_request meth endpoint data v) v))")
  with raised show ?thesis by (simp add: api_request_401 [OF first])
qed

lemma api_request_error_status:
  assumes "st \<ge> 400" "st \<noteq> 401"
  shows "api_request meth endpoint data True (w\<lparr>net := Response st b # rest\<rparr>) =
     (Inr JNull, w\<lparr>sent := sent w @ [api_http_request meth endpoint data w], net := rest\<rparr>)"
  using assms
  by (subst api_request.simps) (simp add: http_def Let_def api_http_request_def)

lemma api_request_ok_status:
  assumes "st < 400"
  shows "api_request meth endpoint data True (w\<lparr>net := Response st (Some j) # rest\<rparr>) =
     (Inr j, w\<lparr>sent := sent w @ [api_http_request meth endpoint data w], net := rest\<rparr>)"
  using assms
  by (subst api_request.simps) (simp add: http_def Let_def api_http_request_def)

lemma api_request_first_sent:
  "prefix (sent w @ [api_http_request meth endpoint data w])
     (sent (snd (api_request meth endpoint data True w)))"
proof (cases "\<exists>b rest. net w = Response 401 b # rest")
  case False
  from api_request_not_401 [OF False] api_request_once_sent
  show ?thesis by simp
next
  case True
  then obtain b rest where n: "net w = Response 401 b # rest" by blast
  let ?w1 = "snd (http (api_http_request meth endpoint data w) w)"
  have s1: "sent ?w1 = sent w @ [api_http_request meth endpoint data w]"
    by (simp add: http_sent)
  obtain r2 w2 where rt: "refresh_tokens ?w1 = (r2, w2)" by (cases "refresh_tokens ?w1")
  with refresh_tokens_sent [of ?w1] s1
  have s2: "sent w2 = sent w @ [api_http_request meth endpoint data w, refresh_request ?w1]"
    by simp
  show ?thesis
  proof (cases r2)
    case (Inl e)
    with rt s2 show ?thesis by (simp add: api_request_401 [OF n])
  next
    case (Inr u)
    with rt s2 api_request_once_sent [of meth endpoint "data" w2]
    show ?thesis by (simp add: api_request_401 [OF n])
  qed
qed

lemma api_request_retry_error:
  assumes first: "net v = Response 401 b0 # tail"
    and refreshed: "refresh_tokens (snd (http (api_http_request meth endpoint data v) v)) = (Inr (), v2)"
    and again: "net v2 = Response st b # rest" "400 \<le> st"
  shows "fst (api_request meth endpoint data True v) = Inr JNull"
  using refreshed api_request_once_error [OF again, of meth endpoint "data"]
  by (simp add: api_request_401 [OF first])

lemma api_request_error_fst:
  assumes "net v = Response st b # rest" "400 \<le> st" "st \<noteq> 401"
  shows "fst (api_request meth endpoint data True v) = Inr JNull"
proof -
  from assms have "\<not> (\<exists>b rest. net v = Response 401 b # rest)" by auto
  from api_request_not_401 [OF this] api_request_once_error [OF assms(1,2)]
  show ?thesis by simp
qed


lemma lookup_status_none:
  fixes cd :: call_data
  assumes rq: "rq = api_http_request ''GET''
                 [Lit (''contacts?query='' @ filter str_isdigit (phone cd))] None v"
    and v1: "v1 = snd (http rq v)" and v2: "v2 = snd (refresh_tokens v1)"
    and failing: "(\<exists>st b rest. net v = Response st b # rest \<and> 400 \<le> st \<and> st \<noteq> 401)
         \<or> ((\<exists>b0 tail. net v = Response 401 b0 # tail)
             \<and> fst (refresh_tokens v1) = Inr ()
             \<and> (\<exists>st b rest. net v2 = Response st b # rest \<and> 400 \<le> st))"
  shows "fst (lookup_request cd v) = Inr JNull"
  using failing
proof
  assume "\<exists>st b rest. net v = Response st b # rest \<and> 400 \<le> st \<and> st \<noteq> 401"
  then show ?thesis using api_request_error_fst by (auto simp: lookup_request_def)
next
  assume a: "(\<exists>b0 tail. net v = Response 401 b0 # tail)
             \<and> fst (refresh_tokens v1) = Inr ()
             \<and> (\<exists>st b rest. net v2 = Response st b # rest \<and> 400 \<le> st)"
  from a obtain b0 tail where n: "net v = Response 401 b0 # tail" by blast
  from a v2 have r: "refresh_tokens v1 = (Inr (), v2)" by (metis prod.collapse)
  from a obtain st b rest where s: "net v2 = Response st b # rest" "400 \<le> st" by blast
  from api_request_retry_error [OF n r [unfolded v1 rq] s]
  show ?thesis by (simp add: lookup_request_def)
qed

text \<open>
  C10, as the code has it. When the lookup request comes back as \<^verbatim>\<open>None\<close>,
  \<^verbatim>\<open>find_contact\<close> returns \<^verbatim>\<open>None\<close> and \<^verbatim>\<open>process_call\<close> (in both files) does nothing but
  create the unsorted lead for the number, from the state the lookup left; the request
  for the lead is the first one sent after the lookup. The lookup does come back as
  \<^verbatim>\<open>None\<close> when the first response has a status from 400 on other than 401, and when it
  is a 401, the refresh succeeds and the response to the retry has a status from 400 on.
  A lookup answered with an error status other than 401 and a lookup answered with an
  empty contact list lead to the very same result and state. But when no response
  arrives, or when the refresh after a 401 raises, \<^verbatim>\<open>process_call\<close> raises that exception
  with nothing sent after the failed exchange: no lead is created.
\<close>

theorem lookup_failure_creates_unsorted:
  fixes cd :: call_data
  assumes rq: "rq = api_http_request ''GET''
                 [Lit (''contacts?query='' @ filter str_isdigit (phone cd))] None v"
    and v1: "v1 = snd (http rq v)" and v2: "v2 = snd (refresh_tokens v1)"
    and w1: "w1 = snd (lookup_request cd v)"
  shows "(fst (lookup_request cd v) = Inr JNull \<longrightarrow>
            find_contact (phone cd) v = (Inr JNull, w1)
          \<and> find_contact_debug (phone cd) v = (Inr JNull, w1)
          \<and> process_call cd v = unsorted_only cd w1
          \<and> process_call_debug cd v = unsorted_only cd w1
          \<and> prefix (sent w1 @ [api_http_request ''POST'' [Lit ''leads/unsorted/forms'']
                                 (Some (unsorted_data (phone cd))) w1])
              (sent (snd (process_call cd v))))
     \<and> ((\<exists>st b rest. net v = Response st b # rest \<and> 400 \<le> st \<and> st \<noteq> 401)
         \<or> ((\<exists>b0 tail. net v = Response 401 b0 # tail)
             \<and> fst (refresh_tokens v1) = Inr ()
             \<and> (\<exists>st b rest. net v2 = Response st b # rest \<and> 400 \<le> st))
         \<longrightarrow> fst (lookup_request cd v) = Inr JNull)
     \<and> (400 \<le> st \<and> st \<noteq> 401 \<longrightarrow>
          process_call cd (u\<lparr>net := Response st b # rest\<rparr>)
            = process_call cd (u\<lparr>net := Response 200 (Some no_contacts) # rest\<rparr>)
          \<and> process_call_debug cd (u\<lparr>net := Response st b # rest\<rparr>)
            = process_call_debug cd (u\<lparr>net := Response 200 (Some no_contacts) # rest\<rparr>))
     \<and> (net v = [] \<or> (\<exists>rest. net v = Failure # rest) \<longrightarrow>
          process_call cd v = (Inl ClientError, v1)
          \<and> process_call_debug cd v = (Inl ClientError, v1)
          \<and> sent v1 = sent v @ [rq])
     \<and> ((\<exists>b0 tail. net v = Response 401 b0 # tail) \<and> fst (refresh_tokens v1) = Inl e \<longrightarrow>
          process_call cd v = (Inl e, v2)
          \<and> process_call_debug cd v = (Inl e, v2)
          \<and> sent v2 = sent v @ [rq, refresh_request v1])"
proof -
  let ?ep = "[Lit (''contacts?query='' @ filter str_isdigit (phone cd))]"
  have none: "fst (lookup_request cd v) = Inr JNull \<longrightarrow>
            find_contact (phone cd) v = (Inr JNull, w1)
          \<and> find_contact_debug (phone cd) v = (Inr JNull, w1)
          \<and> process_call cd v = unsorted_only cd w1
          \<and> process_call_debug cd v = unsorted_only cd w1
          \<and> prefix (sent w1 @ [api_http_request ''POST'' [Lit ''leads/unsorted/forms'']
                                 (Some (unsorted_data (phone cd))) w1])
              (sent (snd (process_call cd v)))"
  proof
    assume "fst (lookup_request cd v) = Inr JNull"
    with w1 have lookup: "lookup_request cd v = (Inr JNull, w1)" by (metis prod.collapse)
    note fc = find_contact_none [OF lookup]
    note pc = process_call_none [OF lookup]
    have "sent (snd (unsorted_only cd w1)) = sent (snd (create_unsorted (phone cd) w1))"
      by (simp add: unsorted_only_def split: prod.splits sum.splits)
    with api_request_first_sent [of w1 "''POST''" "[Lit ''leads/unsorted/forms'']"
           "Some (unsorted_data (phone cd))"] pc
    have "prefix (sent w1 @ [api_http_request ''POST'' [Lit ''leads/unsorted/forms'']
                                 (Some (unsorted_data (phone cd))) w1])
              (sent (snd (process_call cd v)))"
      by (simp add: create_unsorted_def)
    with fc pc show "find_contact (phone cd) v = (Inr JNull, w1)
          \<and> find_contact_debug (phone cd) v = (Inr JNull, w1)
          \<and> process_call cd v = unsorted_only cd w1
          \<and> process_call_debug cd v = unsorted_only cd w1
          \<and> prefix (sent w1 @ [api_http_request ''POST'' [Lit ''leads/unsorted/forms'']
                                 (Some (unsorted_data (phone cd))) w1])
              (sent (snd (process_call cd v)))" by blast
  qed
  have status: "(\<exists>st b rest. net v = Response st b # rest \<and> 400 \<le> st \<and> st \<noteq> 401)
         \<or> ((\<exists>b0 tail. net v = Response 401 b0 # tail)
             \<and> fst (refresh_tokens v1) = Inr ()
             \<and> (\<exists>st b rest. net v2 = Response st b # rest \<and> 400 \<le> st))
         \<longrightarrow> fst (lookup_request cd v) = Inr JNull"
    using lookup_status_none [OF rq v1 v2] by blast
  have same: "400 \<le> st \<and> st \<noteq> 401 \<longrightarrow>
          process_call cd (u\<lparr>net := Response st b # rest\<rparr>)
            = process_call cd (u\<lparr>net := Response 200 (Some no_contacts) # rest\<rparr>)
          \<and> process_call_debug cd (u\<lparr>net := Response st b # rest\<rparr>)
            = process_call_debug cd (u\<lparr>net := Response 200 (Some no_contacts) # rest\<rparr>)"
  proof
    assume st: "400 \<le> st \<and> st \<noteq> 401"
    let ?u1 = "u\<lparr>sent := sent u @ [api_http_request ''GET'' ?ep None u], net := rest\<rparr>"
    from st have "lookup_request cd (u\<lparr>net := Response st b # rest\<rparr>) = (Inr JNull, ?u1)"
      by (simp add: lookup_request_def api_request_error_status)
    note a = process_call_none [OF this]
    have "lookup_request cd (u\<lparr>net := Response 200 (Some no_contacts) # rest\<rparr>)
        = (Inr no_contacts, ?u1)"
      by (simp add: lookup_request_def api_request_ok_status)
    note b = process_call_empty [OF this]
    from a b show "process_call cd (u\<lparr>net := Response st b # rest\<rparr>)
            = process_call cd (u\<lparr>net := Response 200 (Some no_contacts) # rest\<rparr>)
          \<and> process_call_debug cd (u\<lparr>net := Response st b # rest\<rparr>)
            = process_call_debug cd (u\<lparr>net := Response 200 (Some no_contacts) # rest\<rparr>)"
      by simp
  qed
  have s1: "sent v1 = sent v @ [rq]" by (simp add: v1 http_sent)
  have s2: "sent v2 = sent v @ [rq, refresh_request v1]"
    by (simp add: v2 refresh_tokens_sent s1)
  have silent: "net v = [] \<or> (\<exists>rest. net v = Failure # rest) \<longrightarrow>
          process_call cd v = (Inl ClientError, v1)
          \<and> process_call_debug cd v = (Inl ClientError, v1)
          \<and> sent v1 = sent v @ [rq]"
  proof
    assume "net v = [] \<or> (\<exists>rest. net v = Failure # rest)"
    from api_request_no_response [OF this, of "''GET''" ?ep None]
    have "lookup_request cd v = (Inl ClientError, v1)"
      by (simp add: lookup_request_def v1 rq)
    from process_call_raises [OF this] s1
    show "process_call cd v = (Inl ClientError, v1)
          \<and> process_call_debug cd v = (Inl ClientError, v1)
          \<and> sent v1 = sent v @ [rq]" by simp
  qed
  have refused: "(\<exists>b0 tail. net v = Response 401 b0 # tail) \<and> fst (refresh_tokens v1) = Inl e
          \<longrightarrow> process_call cd v = (Inl e, v2)
          \<and> process_call_debug cd v = (Inl e, v2)
          \<and> sent v2 = sent v @ [rq, refresh_request v1]"
  proof
    assume a: "(\<exists>b0 tail. net v = Response 401 b0 # tail) \<and> fst (refresh_tokens v1) = Inl e"
    then obtain b0 tail where n: "net v = Response 401 b0 # tail" by blast
    from a have "fst (refresh_tokens (snd (http (api_http_request ''GET'' ?ep None v) v))) = Inl e"
      by (simp add: v1 rq)
    from api_request_refresh_raises [OF n this]
    have "lookup_request cd v = (Inl e, v2)"
      by (simp add: lookup_request_def v2 v1 rq)
    from process_call_raises [OF this] s2
    show "process_call cd v = (Inl e, v2)
          \<and> process_call_debug cd v = (Inl e, v2)
          \<and> sent v2 = sent v @ [rq, refresh_request v1]" by simp
  qed
  from none status same silent refused show ?thesis by blast
qed

text \<open>A lookup answered with 401 and, after the refresh, with 503: the lead is created.\<close>

theorem lookup_failure_creates_unsorted_witness:
  "fst (lookup_request answered_call crm_outage) = Inr JNull
   \<and> fst (process_call answered_call crm_outage) = Inr ()
   \<and> map rq_method (sent (snd (process_call answered_call crm_outage)))
       = [''GET'', ''POST'', ''GET'', ''POST'']
   \<and> rq_json (last (sent (snd (process_call answered_call crm_outage))))
       = Some (unsorted_data ''79161234567'')"
proof -
  let ?rq = "api_http_request ''GET''
     [Lit (''contacts?query='' @ filter str_isdigit (phone answered_call))] None crm_outage"
  let ?v1 = "snd (http ?rq crm_outage)"
  let ?v2 = "snd (refresh_tokens ?v1)"
  let ?w1 = "snd (lookup_request answered_call crm_outage)"
  note T = lookup_failure_creates_unsorted [OF refl refl refl refl, of answered_call crm_outage]
  have "net crm_outage = unauthorized # tl (net crm_outage)" by code_simp
  then have n: "\<exists>b0 tail. net crm_outage = Response 401 b0 # tail"
    unfolding unauthorized_def by blast
  have r: "fst (refresh_tokens ?v1) = Inr ()" by code_simp
  have "net ?v2 = Response 503 None # tl (net ?v2)" by code_simp
  moreover have "(400::int) \<le> 503" by simp
  ultimately have n2: "\<exists>st b rest. net ?v2 = Response st b # rest \<and> 400 \<le> st"
    by blast
  from T [THEN conjunct2, THEN conjunct1] n r n2
  have none: "fst (lookup_request answered_call crm_outage) = Inr JNull" by blast
  with T [THEN conjunct1]
  have pc: "process_call answered_call crm_outage = unsorted_only answered_call ?w1" by blast
  have lead: "fst (unsorted_only answered_call ?w1) = Inr ()" by code_simp
  have trace: "map rq_method (sent (snd (unsorted_only answered_call ?w1)))
       = [''GET'', ''POST'', ''GET'', ''POST'']"
    by code_simp
  have body: "rq_json (last (sent (snd (unsorted_only answered_call ?w1))))
       = Some (unsorted_data ''79161234567'')"
    by code_simp
  from none pc lead trace body show ?thesis by simp
qed

text \<open>
  Against C10 as stated: with the CRM out of reach the lookup raises, \<^verbatim>\<open>process_call\<close>
  ends with that exception and only the lookup has been sent; with a CRM that answers
  and knows no contact, the lead is created.
\<close>

theorem lookup_failure_creates_unsorted_counterexample:
  "fst (process_call answered_call crm_unreachable) = Inl ClientError
   \<and> map rq_method (sent (snd (process_call answered_call crm_unreachable))) = [''GET'']
   \<and> fst (process_call_debug answered_call crm_unreachable) = Inl ClientError
   \<and> fst (process_call answered_call crm_no_contact) = Inr ()
   \<and> map rq_method (sent (snd (process_call answered_call crm_no_contact)))
       = [''GET'', ''POST'']"
  by code_simp


section \<open>Concurrent refreshes\<close>

lemma advance_alone:
  "(case advance Not_started w of (t, w1) \<Rightarrow> advance t w1) =
   (case refresh_tokens w of (r, w') \<Rightarrow> (Returned r, w'))"
  by (cases "http (refresh_request w) w")
     (auto simp: refresh_tokens_def split: sum.splits prod.splits)

lemma advance_sent:
  "advance t w = (t', w') \<Longrightarrow>
   length (sent w') = length (sent w) + (if t = Not_started then 1 else 0) \<and> started t'
   \<and> (returned t \<longrightarrow> t' = t \<and> w' = w)"
proof (cases t)
  case Not_started
  assume "advance t w = (t', w')"
  with Not_started http_sent [of "refresh_request w" w] show ?thesis
    by (auto simp: started_def returned_def split: prod.splits)
next
  case (Awaiting r)
  assume a: "advance t w = (t', w')"
  show ?thesis
  proof (cases r)
    case (Inl e)
    with a Awaiting show ?thesis by (auto simp: started_def returned_def)
  next
    case (Inr resp)
    with a Awaiting have "w' = snd (refresh_receive resp w)" "t' = Returned (fst (refresh_receive resp w))"
      by (auto split: prod.splits)
    with Awaiting refresh_receive_sent [of resp w] show ?thesis
      by (simp add: started_def returned_def)
  qed
next
  case (Returned r)
  assume "advance t w = (t', w')"
  with Returned show ?thesis by (auto simp: started_def returned_def)
qed

lemma filter_started_update:
  assumes "i < length ts" "started t'"
  shows "length (filter started (ts[i := t'])) =
         length (filter started ts) + (if started (ts ! i) then 0 else 1)"
  using assms
proof (induction ts arbitrary: i)
  case Nil
  then show ?case by simp
next
  case (Cons a ts)
  then show ?case by (cases i) auto
qed

lemma turn_exchanges:
  assumes "turn i (ts, w) = (ts', w')"
  shows "length ts' = length ts
     \<and> length (sent w') + length (filter started ts)
         = length (sent w) + length (filter started ts')"
proof (cases "i < length ts")
  case False
  with assms show ?thesis by simp
next
  case True
  obtain t' w1 where a: "advance (ts ! i) w = (t', w1)" by (cases "advance (ts ! i) w")
  with True assms have r: "ts' = ts[i := t']" "w' = w1" by simp_all
  from advance_sent [OF a] filter_started_update [OF True, of t'] r
  show ?thesis by (auto simp: started_def)
qed

lemma interleave_exchanges:
  assumes "interleave schedule (ts, w) = (ts', w')"
  shows "length ts' = length ts
     \<and> length (sent w') + length (filter started ts)
         = length (sent w) + length (filter started ts')"
  using assms
proof (induction schedule arbitrary: ts w)
  case Nil
  then show ?case by (simp add: interleave_def)
next
  case (Cons i schedule)
  obtain ts1 w1 where t: "turn i (ts, w) = (ts1, w1)" by (cases "turn i (ts, w)")
  with Cons.prems have "interleave schedule (ts1, w1) = (ts', w')"
    by (simp add: interleave_def)
  from Cons.IH [OF this] turn_exchanges [OF t] show ?case by simp
qed

text \<open>
  C7, as the code has it. There is no guard around \<^verbatim>\<open>refresh_tokens\<close>: every call makes
  its own exchange. Start \<open>n\<close> calls on one client and let the event loop give them
  turns in any order: at every moment the number of requests sent is the number of calls
  that have started, so once all \<open>n\<close> have returned there have been exactly \<open>n\<close>
  exchanges. A call that gets its two turns in a row is \<^verbatim>\<open>refresh_tokens\<close>.
\<close>

theorem refresh_not_single_flight:
  assumes run: "interleave schedule (replicate n Not_started, w) = (ts', w')"
  shows "length ts' = n
     \<and> length (sent w') = length (sent w) + length (filter started ts')
     \<and> (list_all returned ts' \<longrightarrow> length (sent w') = length (sent w) + n)
     \<and> (case advance Not_started w of (t, w1) \<Rightarrow> advance t w1) =
         (case refresh_tokens w of (r, w') \<Rightarrow> (Returned r, w'))"
proof -
  have none: "filter started (replicate n Not_started) = []"
    by (simp add: started_def)
  from interleave_exchanges [OF run] none
  have 1: "length ts' = n" "length (sent w') = length (sent w) + length (filter started ts')"
    by simp_all
  have "list_all returned ts' \<longrightarrow> filter started ts' = ts'"
    by (auto simp: list_all_iff returned_def started_def split: refresh_task.splits
             intro!: filter_True)
  with 1 have 2: "list_all returned ts' \<longrightarrow> length (sent w') = length (sent w) + n"
    by auto
  from 1 2 advance_alone show ?thesis by blast
qed

theorem refresh_not_single_flight_witness:
  "list_all returned (fst (interleave [0, 1, 0, 1] (replicate 2 Not_started, crm_rotating)))
   \<and> sent crm_rotating = []
   \<and> length (sent (snd (interleave [0, 1, 0, 1] (replicate 2 Not_started, crm_rotating)))) = 2"
proof -
  have r: "list_all returned
      (fst (interleave [0, 1, 0, 1] (replicate 2 Not_started, crm_rotating)))"
    by code_simp
  have s: "sent crm_rotating = []" by code_simp
  from refresh_not_single_flight [OF prod.collapse [symmetric], of "[0, 1, 0, 1]" 2 crm_rotating]
    r s
  show ?thesis by simp
qed

text \<open>
  Against C7 as stated: two calls that both start before either response is read make
  two exchanges, both with the refresh token stored at the start; the server accepts
  the first and rejects the second, so one caller returns and the other raises.
\<close>

theorem refresh_not_single_flight_counterexample:
  "fst (interleave [0, 1, 0, 1] ([Not_started, Not_started], crm_rotating))
     = [Returned (Inr ()), Returned (Inl (KeyError ''access_token''))]
   \<and> map rq_json (sent (snd (interleave [0, 1, 0, 1] ([Not_started, Not_started], crm_rotating))))
     = [rq_json (refresh_request crm0), rq_json (refresh_request crm0)]
   \<and> refresh_token crm0 = JStr ''refresh-1''"
  by code_simp

end
